theory Spec2Isabelle
  imports Complex_Main
begin

chapter \<open>The embedding\<close>

text \<open>
  The content script is embedded function by function, in the order of the source.
  Module-level variables and object fields become record fields that every function takes
  and returns; callbacks dispatched to listeners become entries of a log; a \<open>throw\<close>
  becomes the left injection of a sum.  Names are those of the source; where the bundler
  wrote \<open>name$1\<close>, \<open>name$2\<close> the model writes \<open>name1\<close>, \<open>name2\<close>, and a leading
  underscore of a private field is dropped.

  JavaScript numbers are modelled as mathematical reals (no rounding, no \<open>NaN\<close>, no signed
  zero): \<open>Math.hypot\<close> is the Euclidean norm and \<open>Math.atan2\<close> the two-argument
  arctangent.  Button masks, click counts and timer identifiers are natural numbers.
\<close>

section \<open>Utilities\<close>

definition hypot :: "real \<Rightarrow> real \<Rightarrow> real" where
  "hypot a b = sqrt (a * a + b * b)"

definition getDistance :: "real \<Rightarrow> real \<Rightarrow> real \<Rightarrow> real \<Rightarrow> real" where
  "getDistance x1 y1 x2 y2 = hypot (x2 - x1) (y2 - y1)"

fun toSingleButton :: "nat \<Rightarrow> int" where
  "toSingleButton pressedButton =
     (if pressedButton = 1 then 0
      else if pressedButton = 2 then 2
      else if pressedButton = 4 then 1
      else - 1)"

section \<open>JavaScript values\<close>

text \<open>
  The arguments of the \<open>ConfigManager\<close> methods and of the listener functions are
  dynamically typed.  \<open>JFun\<close> carries the identity of a function object.  A thrown string
  literal is \<open>Thrown\<close>; \<open>TypeError\<close> and \<open>SyntaxError\<close> are the exceptions raised by the
  language itself (calling a value that is not a function, \<open>JSON.parse\<close> of
  \<open>undefined\<close>).
\<close>

datatype jsval =
    JUndefined
  | JNull
  | JBool bool
  | JNum real
  | JStr string
  | JArr "jsval list"
  | JObj "(string \<times> jsval) list"
  | JFun nat

text \<open>
  The stored configuration and the defaults are JSON data: they come from the storage of
  the browser, from a JSON file, or from \<open>cloneObject\<close>.  An object is the list of its
  own properties; the order of that list is not meant to be the order in which the
  language enumerates them, and no property below depends on it.
\<close>

datatype json =
    JsonNull
  | JsonBool bool
  | JsonNum real
  | JsonStr string
  | JsonArr "json list"
  | JsonObj "(string \<times> json) list"

type_synonym properties = "(string \<times> json) list"

datatype js_error = Thrown string | TypeError string | SyntaxError

datatype returned = Value jsval | StoragePromise

primrec ofJson :: "json \<Rightarrow> jsval" where
  "ofJson JsonNull = JNull"
| "ofJson (JsonBool b) = JBool b"
| "ofJson (JsonNum n) = JNum n"
| "ofJson (JsonStr s) = JStr s"
| "ofJson (JsonArr xs) = JArr (map ofJson xs)"
| "ofJson (JsonObj kvs) = JObj (map (map_prod id ofJson) kvs)"

text \<open>
  \<open>JSON.parse(JSON.stringify(v))\<close>: \<open>JSON.stringify\<close> answers \<open>undefined\<close> for
  \<open>undefined\<close> and for a function, writes \<open>null\<close> for such an element of an array, and
  leaves out a property with such a value.  \<open>None\<close> stands for the answer \<open>undefined\<close>.
\<close>

primrec toJson :: "jsval \<Rightarrow> json option" where
  "toJson JUndefined = None"
| "toJson (JFun f) = None"
| "toJson JNull = Some JsonNull"
| "toJson (JBool b) = Some (JsonBool b)"
| "toJson (JNum n) = Some (JsonNum n)"
| "toJson (JStr s) = Some (JsonStr s)"
| "toJson (JArr xs) =
     Some (JsonArr (map (\<lambda>j. case j of None \<Rightarrow> JsonNull | Some v \<Rightarrow> v) (map toJson xs)))"
| "toJson (JObj kvs) =
     Some (JsonObj (concat (map (\<lambda>p. case snd p of None \<Rightarrow> [] | Some v \<Rightarrow> [(fst p, v)])
                              (map (map_prod id toJson) kvs))))"

text \<open>
  \<open>cloneObject\<close>: \<open>JSON.parse\<close> throws a \<open>SyntaxError\<close> when \<open>JSON.stringify\<close> has
  answered \<open>undefined\<close>.
\<close>

definition cloneObject :: "jsval \<Rightarrow> js_error + json" where
  "cloneObject obj = (case toJson obj of None \<Rightarrow> Inl SyntaxError | Some v \<Rightarrow> Inr v)"

text \<open>
  Two operations of the language are parameters of the model: the conversion of a value
  to a property key, and the value a property read finds on the prototype chain when the
  object has no own property of that name (\<open>JUndefined\<close> when there is none).
\<close>

record js_builtins =
  toPropertyKey :: "jsval \<Rightarrow> string"
  inheritedProperty :: "string \<Rightarrow> jsval"

fun isString :: "jsval \<Rightarrow> bool" where
  "isString (JStr s) = True"
| "isString v = False"

fun isArray :: "jsval \<Rightarrow> bool" where
  "isArray (JArr xs) = True"
| "isArray v = False"

fun isFunction :: "jsval \<Rightarrow> bool" where
  "isFunction (JFun f) = True"
| "isFunction v = False"

text \<open>\<open>isObject\<close>: truthy, of type object, and not an array.\<close>

fun isObject :: "jsval \<Rightarrow> bool" where
  "isObject (JObj kvs) = True"
| "isObject item = False"

text \<open>\<open>String.prototype.split\<close> with a one-character separator.\<close>

fun splitString :: "char \<Rightarrow> string \<Rightarrow> string list" where
  "splitString sep [] = [Nil]"
| "splitString sep (c # cs) =
     (if c = sep then [] # splitString sep cs
      else (case splitString sep cs of [] \<Rightarrow> [c] # [] | w # ws \<Rightarrow> (c # w) # ws))"

text \<open>A property read \<open>obj[key]\<close>: the own property, or else the inherited one.\<close>

fun getProperty :: "js_builtins \<Rightarrow> jsval \<Rightarrow> string \<Rightarrow> jsval" where
  "getProperty B (JObj kvs) k =
     (case map_of kvs k of None \<Rightarrow> inheritedProperty B k | Some v \<Rightarrow> v)"
| "getProperty B v k = JUndefined"

text \<open>
  The call \<open>entry.hasOwnProperty(key)\<close> on an object of the stored configuration.  The
  method is looked up on the object itself first: a stored property of that name is
  data, not a function, and calling it raises a \<open>TypeError\<close>.  Otherwise the method is
  the inherited one, the test for an own property.
\<close>

definition hasOwnProperty :: "properties \<Rightarrow> string \<Rightarrow> js_error + bool" where
  "hasOwnProperty entry k =
     (if ''hasOwnProperty'' \<in> fst ` set entry
      then Inl (TypeError ''entry.hasOwnProperty is not a function'')
      else Inr (k \<in> fst ` set entry))"

text \<open>
  An assignment to a property: an existing property keeps its place, a new one is added
  at the end.  The accessor \<open>__proto__\<close> is not modelled; a key of that name is treated
  like any other.
\<close>

definition putProperty :: "properties \<Rightarrow> string \<Rightarrow> json \<Rightarrow> properties" where
  "putProperty entry k v =
     (if k \<in> fst ` set entry then map (\<lambda>p. if fst p = k then (k, v) else p) entry
      else entry @ [(k, v)])"

definition deleteProperty :: "properties \<Rightarrow> string \<Rightarrow> properties" where
  "deleteProperty entry k = filter (\<lambda>p. fst p \<noteq> k) entry"

text \<open>
  \<open>Set.prototype.add\<close> on a set kept in insertion order.
\<close>

definition setAdd :: "jsval \<Rightarrow> jsval list \<Rightarrow> jsval list" where
  "setAdd v xs = (if v \<in> set xs then xs else xs @ [v])"

section \<open>ConfigManager\<close>

record config_manager =
  storageArea :: string
  storage :: properties
  defaults :: json
  cmEvents :: "(string \<times> jsval list) list"
  autoUpdate :: bool

definition storageAreaMessage :: string where
  "storageAreaMessage =
     ''The first argument must be a storage area in form of a string containing either local or sync.''"

definition defaultsURLMessage :: string where
  "defaultsURLMessage = ''The second argument must be an URL to a JSON file.''"

definition storagePathMessage :: string where
  "storagePathMessage =
     ''The first argument must be a storage path either in the form of an array or a string concatenated with dots.''"

definition eventMessage :: string where
  "eventMessage = ''The first argument is not a valid event.''"

definition callbackMessage :: string where
  "callbackMessage = ''The second argument must be a function.''"

text \<open>
  The constructor.  The stored configuration and the defaults arrive later, when the
  promise \<open>loaded\<close> resolves; the object starts with both empty.
\<close>

definition ConfigManager :: "jsval \<Rightarrow> jsval \<Rightarrow> js_error + config_manager" where
  "ConfigManager storageArea' defaultsURL =
     (if storageArea' \<noteq> JStr ''local'' \<and> storageArea' \<noteq> JStr ''sync''
      then Inl (Thrown storageAreaMessage)
      else if \<not> isString defaultsURL \<and> defaultsURL \<noteq> JUndefined
      then Inl (Thrown defaultsURLMessage)
      else Inr \<lparr> storageArea = (case storageArea' of JStr s \<Rightarrow> s | _ \<Rightarrow> []),
                 storage = [], defaults = JsonObj [],
                 cmEvents = [(''change'', [])], autoUpdate = False \<rparr>)"

definition pathWalker :: "js_builtins \<Rightarrow> jsval \<Rightarrow> jsval \<Rightarrow> jsval" where
  "pathWalker B obj k =
     (if isObject obj then getProperty B obj (toPropertyKey B k) else JUndefined)"

text \<open>
  \<open>get (storagePath = [])\<close>: the default parameter replaces an argument that is
  \<open>undefined\<close> by the empty array before the checks run.
\<close>

definition ConfigManager_get :: "js_builtins \<Rightarrow> config_manager \<Rightarrow> jsval \<Rightarrow> js_error + jsval" where
  "ConfigManager_get B this storagePathArg =
     (let storagePath = (if storagePathArg = JUndefined then JArr [] else storagePathArg) in
      case (case storagePath of
              JStr s \<Rightarrow> Inr (map JStr (splitString CHR ''.'' s))
            | JArr keys \<Rightarrow> Inr keys
            | _ \<Rightarrow> Inl (Thrown storagePathMessage)) of
        Inl e \<Rightarrow> Inl e
      | Inr path \<Rightarrow>
          let entry = foldl (pathWalker B) (ofJson (JsonObj (storage this))) path;
              entry' = (if entry = JUndefined
                        then foldl (pathWalker B) (ofJson (defaults this)) path
                        else entry)
          in if entry' \<noteq> JUndefined
             then (case cloneObject entry' of Inl e \<Rightarrow> Inl e | Inr v \<Rightarrow> Inr (ofJson v))
             else Inr JUndefined)"

text \<open>
  The object the loop of \<open>set\<close> steps into: the stored one, or an empty object that
  replaces what is missing or is not an object.
\<close>

definition childObject :: "properties \<Rightarrow> string \<Rightarrow> js_error + properties" where
  "childObject entry k =
     (case hasOwnProperty entry k of
        Inl e \<Rightarrow> Inl e
      | Inr own \<Rightarrow>
          Inr (case map_of entry k of
                 Some (JsonObj child) \<Rightarrow> if own then child else []
               | _ \<Rightarrow> []))"

text \<open>
  The loop of \<open>set\<close> walks to the parent of the last key, creating the objects that are
  missing, and the statement after it assigns the clone of the value to the last key.
  \<open>assignPath\<close> gives the storage object after both and the error, if one was thrown.
  Its second argument is the outcome of cloning the value, which the source evaluates
  after the loop: an error of the loop comes first, and when cloning throws, the objects
  the loop has created remain.
\<close>

fun assignPath ::
  "string list \<Rightarrow> js_error + json \<Rightarrow> properties \<Rightarrow> js_error option \<times> properties" where
  "assignPath [] v entry = (None, entry)"
| "assignPath [k] v entry =
     (case v of Inl e \<Rightarrow> (Some e, entry) | Inr w \<Rightarrow> (None, putProperty entry k w))"
| "assignPath (k # k' # ks) v entry =
     (case childObject entry k of
        Inl e \<Rightarrow> (Some e, entry)
      | Inr child \<Rightarrow>
          (fst (assignPath (k' # ks) v child),
           putProperty entry k (JsonObj (snd (assignPath (k' # ks) v child)))))"

definition argument :: "jsval list \<Rightarrow> nat \<Rightarrow> jsval" where
  "argument arguments i = (if i < length arguments then arguments ! i else JUndefined)"

definition propertiesOf :: "json \<Rightarrow> properties" where
  "propertiesOf v = (case v of JsonObj kvs \<Rightarrow> kvs | _ \<Rightarrow> [])"

text \<open>
  \<open>set\<close> takes the list of its actual arguments, since its second branch tests
  \<open>arguments.length\<close>.  The branches are tried in the order of the source: a string path,
  then a single object argument, then the array check.  The clone of an object is an
  object, whose properties become the stored configuration.
\<close>

definition ConfigManager_set ::
  "js_builtins \<Rightarrow> config_manager \<Rightarrow> jsval list \<Rightarrow> (js_error + returned) \<times> config_manager" where
  "ConfigManager_set B this arguments =
     (let storagePath = argument arguments 0; newValue = argument arguments 1;
          store = (\<lambda>path.
            if length path > 0 then
              (case assignPath (map (toPropertyKey B) path) (cloneObject newValue)
                      (storage this) of
                 (Some e, storage') \<Rightarrow> (Inl e, this \<lparr> storage := storage' \<rparr>)
               | (None, storage') \<Rightarrow> (Inr StoragePromise, this \<lparr> storage := storage' \<rparr>))
            else (Inr (Value JUndefined), this))
      in case storagePath of
           JStr s \<Rightarrow> store (map JStr (splitString CHR ''.'' s))
         | JArr keys \<Rightarrow> store keys
         | _ \<Rightarrow>
             if length arguments = 1 \<and> isObject (argument arguments 0) then
               (case cloneObject (argument arguments 0) of
                  Inl e \<Rightarrow> (Inl e, this)
                | Inr v \<Rightarrow> (Inr StoragePromise, this \<lparr> storage := propertiesOf v \<rparr>))
             else (Inl (Thrown storagePathMessage), this))"

text \<open>
  The loop of \<open>remove\<close> and the \<open>delete\<close> after it: \<open>Inr None\<close> when the loop returns
  early, at a key that is missing or does not hold an object.
\<close>

fun deletePath :: "string list \<Rightarrow> properties \<Rightarrow> js_error + properties option" where
  "deletePath [] entry = Inr (Some entry)"
| "deletePath [k] entry = Inr (Some (deleteProperty entry k))"
| "deletePath (k # k' # ks) entry =
     (case hasOwnProperty entry k of
        Inl e \<Rightarrow> Inl e
      | Inr own \<Rightarrow>
          (case map_of entry k of
             Some (JsonObj child) \<Rightarrow>
               if own then
                 (case deletePath (k' # ks) child of
                    Inl e \<Rightarrow> Inl e
                  | Inr None \<Rightarrow> Inr None
                  | Inr (Some child') \<Rightarrow> Inr (Some (putProperty entry k (JsonObj child'))))
               else Inr None
           | _ \<Rightarrow> Inr None))"

definition ConfigManager_remove ::
  "js_builtins \<Rightarrow> config_manager \<Rightarrow> jsval \<Rightarrow> (js_error + returned) \<times> config_manager" where
  "ConfigManager_remove B this storagePath =
     (let erase = (\<lambda>path.
            if length path > 0 then
              (case deletePath (map (toPropertyKey B) path) (storage this) of
                 Inl e \<Rightarrow> (Inl e, this)
               | Inr None \<Rightarrow> (Inr (Value JUndefined), this)
               | Inr (Some storage') \<Rightarrow> (Inr StoragePromise, this \<lparr> storage := storage' \<rparr>))
            else (Inr (Value JUndefined), this))
      in case storagePath of
           JStr s \<Rightarrow> erase (map JStr (splitString CHR ''.'' s))
         | JArr keys \<Rightarrow> erase keys
         | _ \<Rightarrow> (Inl (Thrown storagePathMessage), this))"

text \<open>
  The three listener methods test \<open>this._events.hasOwnProperty(event)\<close>, an own-property
  test, then the type of the callback.  \<open>hasEventListener\<close> evaluates the membership test
  as an expression statement and falls off the end of the function.
  \<open>removeEventListener\<close> calls \<open>remove\<close>, which a \<open>Set\<close> does not have.
\<close>

definition ConfigManager_addEventListener ::
  "js_builtins \<Rightarrow> config_manager \<Rightarrow> jsval \<Rightarrow> jsval \<Rightarrow> (js_error + jsval) \<times> config_manager" where
  "ConfigManager_addEventListener B this event callback =
     (case map_of (cmEvents this) (toPropertyKey B event) of
        None \<Rightarrow> (Inl (Thrown eventMessage), this)
      | Some listeners \<Rightarrow>
          if \<not> isFunction callback then (Inl (Thrown callbackMessage), this)
          else (Inr JUndefined,
                this \<lparr> cmEvents := map (\<lambda>(name, s).
                          if name = toPropertyKey B event then (name, setAdd callback s)
                          else (name, s)) (cmEvents this) \<rparr>))"

definition ConfigManager_hasEventListener ::
  "js_builtins \<Rightarrow> config_manager \<Rightarrow> jsval \<Rightarrow> jsval \<Rightarrow> js_error + jsval" where
  "ConfigManager_hasEventListener B this event callback =
     (case map_of (cmEvents this) (toPropertyKey B event) of
        None \<Rightarrow> Inl (Thrown eventMessage)
      | Some listeners \<Rightarrow>
          if \<not> isFunction callback then Inl (Thrown callbackMessage)
          else let found = (callback \<in> set listeners) in Inr JUndefined)"

definition ConfigManager_removeEventListener ::
  "js_builtins \<Rightarrow> config_manager \<Rightarrow> jsval \<Rightarrow> jsval \<Rightarrow> js_error + jsval" where
  "ConfigManager_removeEventListener B this event callback =
     (case map_of (cmEvents this) (toPropertyKey B event) of
        None \<Rightarrow> Inl (Thrown eventMessage)
      | Some listeners \<Rightarrow>
          if \<not> isFunction callback then Inl (Thrown callbackMessage)
          else Inl (TypeError ''this._events[event].remove is not a function''))"

section \<open>Listener registries of the three controllers\<close>

text \<open>
  Each controller module keeps a constant object \<open>events\<close> that maps its event names to
  sets of callbacks, and has its own copy of \<open>addEventListener\<close>, \<open>hasEventListener\<close> and
  \<open>removeEventListener\<close>.  They guard with the operator \<open>in\<close>, which also finds the
  properties every object inherits; for such a name the value found is not a set, and the
  method call on it raises a \<open>TypeError\<close>.
\<close>

type_synonym listeners = "(string \<times> jsval list) list"

definition events :: listeners where
  "events = [(''start'', []), (''update'', []), (''abort'', []), (''end'', [])]"

definition events1 :: listeners where
  "events1 = [(''rockerleft'', []), (''rockerright'', [])]"

definition events2 :: listeners where
  "events2 = [(''wheelup'', []), (''wheeldown'', [])]"

definition inOperator :: "js_builtins \<Rightarrow> jsval \<Rightarrow> listeners \<Rightarrow> bool" where
  "inOperator B event registry \<longleftrightarrow>
     map_of registry (toPropertyKey B event) \<noteq> None \<or>
     inheritedProperty B (toPropertyKey B event) \<noteq> JUndefined"

definition addEventListener ::
  "js_builtins \<Rightarrow> listeners \<Rightarrow> jsval \<Rightarrow> jsval \<Rightarrow> (js_error + jsval) \<times> listeners" where
  "addEventListener B registry event callback =
     (if inOperator B event registry then
        (case map_of registry (toPropertyKey B event) of
           None \<Rightarrow> (Inl (TypeError ''events[event].add is not a function''), registry)
         | Some s \<Rightarrow>
             (Inr JUndefined,
              map (\<lambda>(name, s). if name = toPropertyKey B event then (name, setAdd callback s)
                               else (name, s)) registry))
      else (Inr JUndefined, registry))"

definition hasEventListener ::
  "js_builtins \<Rightarrow> listeners \<Rightarrow> jsval \<Rightarrow> jsval \<Rightarrow> js_error + jsval" where
  "hasEventListener B registry event callback =
     (if inOperator B event registry then
        (case map_of registry (toPropertyKey B event) of
           None \<Rightarrow> Inl (TypeError ''events[event].has is not a function'')
         | Some s \<Rightarrow> let found = (callback \<in> set s) in Inr JUndefined)
      else Inr JUndefined)"

definition hasEventListener1 ::
  "js_builtins \<Rightarrow> listeners \<Rightarrow> jsval \<Rightarrow> jsval \<Rightarrow> js_error + jsval" where
  "hasEventListener1 B registry event callback =
     (if inOperator B event registry then
        (case map_of registry (toPropertyKey B event) of
           None \<Rightarrow> Inl (TypeError ''events$1[event].has is not a function'')
         | Some s \<Rightarrow> let found = (callback \<in> set s) in Inr JUndefined)
      else Inr JUndefined)"

definition hasEventListener2 ::
  "js_builtins \<Rightarrow> listeners \<Rightarrow> jsval \<Rightarrow> jsval \<Rightarrow> js_error + jsval" where
  "hasEventListener2 B registry event callback =
     (if inOperator B event registry then
        (case map_of registry (toPropertyKey B event) of
           None \<Rightarrow> Inl (TypeError ''events$2[event].has is not a function'')
         | Some s \<Rightarrow> let found = (callback \<in> set s) in Inr JUndefined)
      else Inr JUndefined)"

section \<open>Input events\<close>

text \<open>
  One record serves for pointer, mouse, wheel and keyboard events, with the properties the
  handlers read.  \<open>truthy event name\<close> is the truthiness of \<open>event[name]\<close>, which the
  controller reads for the modifier flag named by the suppression key.
\<close>

record dom_event =
  isTrusted :: bool
  buttons :: nat
  button :: int
  clientX :: real
  clientY :: real
  deltaY :: real
  detail :: nat
  timeStamp :: real
  key :: string
  repeat :: bool
  truthy :: "string \<Rightarrow> bool"

section \<open>MouseGestureController\<close>

datatype lifecycle = PASSIVE | PENDING | ACTIVE | ABORTED

text \<open>One entry of the log for each call of the callbacks of an event, with its arguments.\<close>

datatype gesture_signal =
    OnStart dom_event "dom_event list"
  | OnUpdate dom_event "dom_event list"
  | OnAbort "dom_event list"
  | OnEnd dom_event "dom_event list"

text \<open>
  The first nine fields are the module's variables.  The others are the part of the
  browser the module acts on: whether the listeners installed by \<open>enable\<close> and by
  \<open>initialize\<close> are attached, the pending timers of \<open>window\<close> (identifier and due time),
  the next timer identifier, the log of dispatched callbacks, and the number of events
  whose default action was prevented.  Pointer capture, the call of
  \<open>getCoalescedEvents\<close> and the clearing of the text selection change none of these
  and are left out.  The setters of the configuration are not inputs of their own: the
  properties below hold for every value of the five configuration variables, so also
  when a setter runs between two events.
\<close>

record mouse_gesture_controller =
  state :: lifecycle
  preventDefault :: bool
  timeoutId :: "nat option"
  mouseEventBuffer :: "dom_event list"
  mouseButton :: nat
  suppressionKey :: string
  distanceThreshold :: real
  timeoutActive :: bool
  timeoutDuration :: real
  enabled :: bool
  listening :: bool
  timers :: "(nat \<times> real) list"
  nextTimer :: nat
  dispatched :: "gesture_signal list"
  prevented :: nat

definition MouseGestureController :: mouse_gesture_controller where
  "MouseGestureController =
     \<lparr> state = PASSIVE, preventDefault = True, timeoutId = None, mouseEventBuffer = [],
       mouseButton = 2, suppressionKey = [], distanceThreshold = 10,
       timeoutActive = False, timeoutDuration = 1000,
       enabled = False, listening = False, timers = [], nextTimer = 1,
       dispatched = [], prevented = 0 \<rparr>"

text \<open>\<open>if (timeoutId)\<close>: \<open>null\<close> and \<open>0\<close> are falsy.\<close>

fun truthyId :: "nat option \<Rightarrow> bool" where
  "truthyId None = False"
| "truthyId (Some i) = (i \<noteq> 0)"

definition clearTimeout :: "nat option \<Rightarrow> mouse_gesture_controller \<Rightarrow> mouse_gesture_controller" where
  "clearTimeout i c = c \<lparr> timers := filter (\<lambda>t. Some (fst t) \<noteq> i) (timers c) \<rparr>"

text \<open>
  \<open>window.setTimeout(abort, delay)\<close> called at time \<open>now\<close>: the timer is due at
  \<open>now + delay\<close>, and its identifier is returned.
\<close>

definition setTimeout ::
  "real \<Rightarrow> real \<Rightarrow> mouse_gesture_controller \<Rightarrow> nat \<times> mouse_gesture_controller" where
  "setTimeout now delay c =
     (nextTimer c, c \<lparr> timers := timers c @ [(nextTimer c, now + delay)],
                       nextTimer := nextTimer c + 1 \<rparr>)"

definition preventDefaultOf :: "mouse_gesture_controller \<Rightarrow> mouse_gesture_controller" where
  "preventDefaultOf c = c \<lparr> prevented := prevented c + 1 \<rparr>"

definition initialize :: "dom_event \<Rightarrow> mouse_gesture_controller \<Rightarrow> mouse_gesture_controller" where
  "initialize event c =
     c \<lparr> mouseEventBuffer := mouseEventBuffer c @ [event],
         state := PENDING,
         preventDefault := False,
         listening := True \<rparr>"

definition update ::
  "real \<Rightarrow> dom_event \<Rightarrow> mouse_gesture_controller \<Rightarrow> mouse_gesture_controller" where
  "update now event c =
     (let c1 = c \<lparr> mouseEventBuffer := mouseEventBuffer c @ [event] \<rparr> in
      if state c1 = PENDING then
        let initialEvent = hd (mouseEventBuffer c1);
            latestEvent = last (mouseEventBuffer c1)
        in if getDistance (clientX initialEvent) (clientY initialEvent)
                (clientX latestEvent) (clientY latestEvent) > distanceThreshold c1
           then c1 \<lparr> dispatched := dispatched c1 @ [OnStart initialEvent (mouseEventBuffer c1)],
                     state := ACTIVE,
                     preventDefault := True \<rparr>
           else c1
      else if state c1 = ACTIVE then
        let c2 = c1 \<lparr> dispatched := dispatched c1 @ [OnUpdate event (mouseEventBuffer c1)] \<rparr> in
        if timeoutActive c2 then
          let c3 = (if truthyId (timeoutId c2) then clearTimeout (timeoutId c2) c2 else c2);
              (newId, c4) = setTimeout now (timeoutDuration c3) c3
          in c4 \<lparr> timeoutId := Some newId \<rparr>
        else c2
      else c1)"

definition abort :: "mouse_gesture_controller \<Rightarrow> mouse_gesture_controller" where
  "abort c = c \<lparr> dispatched := dispatched c @ [OnAbort (mouseEventBuffer c)], state := ABORTED \<rparr>"

definition reset :: "mouse_gesture_controller \<Rightarrow> mouse_gesture_controller" where
  "reset c =
     (let c1 = c \<lparr> listening := False, mouseEventBuffer := [], state := PASSIVE \<rparr> in
      if truthyId (timeoutId c1) then (clearTimeout (timeoutId c1) c1) \<lparr> timeoutId := None \<rparr>
      else c1)"

definition terminate :: "dom_event \<Rightarrow> mouse_gesture_controller \<Rightarrow> mouse_gesture_controller" where
  "terminate event c =
     (let c1 = c \<lparr> mouseEventBuffer := mouseEventBuffer c @ [event] \<rparr>;
          c2 = (if state c1 = ACTIVE
                then c1 \<lparr> dispatched := dispatched c1 @ [OnEnd event (mouseEventBuffer c1)] \<rparr>
                else c1)
      in reset c2)"

definition enable :: "mouse_gesture_controller \<Rightarrow> mouse_gesture_controller" where
  "enable c = c \<lparr> enabled := True \<rparr>"

definition disable :: "mouse_gesture_controller \<Rightarrow> mouse_gesture_controller" where
  "disable c = reset (c \<lparr> enabled := False \<rparr>)"

definition cancel :: "mouse_gesture_controller \<Rightarrow> mouse_gesture_controller" where
  "cancel c = reset c"

definition handleMousedown :: "dom_event \<Rightarrow> mouse_gesture_controller \<Rightarrow> mouse_gesture_controller" where
  "handleMousedown event c =
     (if isTrusted event \<and> buttons event = mouseButton c \<and>
         (suppressionKey c = [] \<or> \<not> truthy event (suppressionKey c))
      then let c1 = initialize event c
           in if mouseButton c1 = 4 then preventDefaultOf c1 else c1
      else c)"

definition handleMousemove ::
  "real \<Rightarrow> dom_event \<Rightarrow> mouse_gesture_controller \<Rightarrow> mouse_gesture_controller" where
  "handleMousemove now event c =
     (if isTrusted event \<and> buttons event = mouseButton c then update now event c else c)"

definition handleMouseup :: "dom_event \<Rightarrow> mouse_gesture_controller \<Rightarrow> mouse_gesture_controller" where
  "handleMouseup event c =
     (if isTrusted event \<and> button event = toSingleButton (mouseButton c)
      then terminate event c else c)"

definition handleContextmenu :: "dom_event \<Rightarrow> mouse_gesture_controller \<Rightarrow> mouse_gesture_controller" where
  "handleContextmenu event c =
     (let c1 = (if isTrusted event \<and> preventDefault c \<and>
                   button event = toSingleButton (mouseButton c) \<and> mouseButton c = 2
                then preventDefaultOf c else c)
      in c1 \<lparr> preventDefault := True \<rparr>)"

definition pressedKey :: "dom_event \<Rightarrow> string option" where
  "pressedKey event =
     map_of [(''Shift'', ''shiftKey''), (''Control'', ''ctrlKey''), (''Alt'', ''altKey'')]
       (key event)"

definition handleKeydown :: "dom_event \<Rightarrow> mouse_gesture_controller \<Rightarrow> mouse_gesture_controller" where
  "handleKeydown event c =
     (if isTrusted event \<and> \<not> repeat event \<and> suppressionKey c \<noteq> [] \<and>
         pressedKey event = Some (suppressionKey c)
      then preventDefaultOf (abort c) else c)"

definition handleDragstart :: "dom_event \<Rightarrow> mouse_gesture_controller \<Rightarrow> mouse_gesture_controller" where
  "handleDragstart event c =
     (if isTrusted event \<and> buttons event = mouseButton c \<and>
         (suppressionKey c = [] \<or> \<not> truthy event (suppressionKey c))
      then preventDefaultOf c else c)"

text \<open>
  What the browser delivers to the module, and the calls of its public methods.  An event
  reaches a handler only while the handler's listener is attached; a timer runs its
  callback \<open>abort\<close> once, when it is pending and due.
\<close>

datatype input =
    Pointerdown dom_event
  | Pointermove dom_event
  | Pointerup dom_event
  | Keydown dom_event
  | Dragstart dom_event
  | Contextmenu dom_event
  | TimerFires nat
  | CallEnable
  | CallDisable
  | CallCancel

definition due :: "real \<Rightarrow> nat \<Rightarrow> mouse_gesture_controller \<Rightarrow> bool" where
  "due now i c \<longleftrightarrow> (\<exists>t \<in> set (timers c). fst t = i \<and> snd t \<le> now)"

fun dispatch :: "real \<Rightarrow> input \<Rightarrow> mouse_gesture_controller \<Rightarrow> mouse_gesture_controller" where
  "dispatch now (Pointerdown event) c = (if enabled c then handleMousedown event c else c)"
| "dispatch now (Contextmenu event) c = (if enabled c then handleContextmenu event c else c)"
| "dispatch now (Pointermove event) c = (if listening c then handleMousemove now event c else c)"
| "dispatch now (Pointerup event) c = (if listening c then handleMouseup event c else c)"
| "dispatch now (Keydown event) c = (if listening c then handleKeydown event c else c)"
| "dispatch now (Dragstart event) c = (if listening c then handleDragstart event c else c)"
| "dispatch now (TimerFires i) c =
     (if due now i c then abort (c \<lparr> timers := filter (\<lambda>t. fst t \<noteq> i) (timers c) \<rparr>) else c)"
| "dispatch now CallEnable c = enable c"
| "dispatch now CallDisable c = disable c"
| "dispatch now CallCancel c = cancel c"

fun run :: "mouse_gesture_controller \<Rightarrow> (real \<times> input) list \<Rightarrow> mouse_gesture_controller" where
  "run c [] = c"
| "run c ((now, i) # rest) = run (dispatch now i c) rest"

text \<open>The conditions of the handlers, named.\<close>

definition matchingPress :: "mouse_gesture_controller \<Rightarrow> dom_event \<Rightarrow> bool" where
  "matchingPress c event \<longleftrightarrow>
     isTrusted event \<and> buttons event = mouseButton c \<and>
     (suppressionKey c = [] \<or> \<not> truthy event (suppressionKey c))"

definition qualifyingRelease :: "mouse_gesture_controller \<Rightarrow> dom_event \<Rightarrow> bool" where
  "qualifyingRelease c event \<longleftrightarrow>
     isTrusted event \<and> button event = toSingleButton (mouseButton c)"

definition suppressionKeyPress :: "mouse_gesture_controller \<Rightarrow> dom_event \<Rightarrow> bool" where
  "suppressionKeyPress c event \<longleftrightarrow>
     isTrusted event \<and> \<not> repeat event \<and> suppressionKey c \<noteq> [] \<and>
     pressedKey event = Some (suppressionKey c)"

text \<open>
  The states the module can be in: the secondary listeners are attached and the buffer is
  non-empty exactly outside \<open>PASSIVE\<close>, and a pending timer is the one \<open>timeoutId\<close> names.
\<close>

definition wellFormed :: "mouse_gesture_controller \<Rightarrow> bool" where
  "wellFormed c \<longleftrightarrow>
     (state c = PASSIVE \<longrightarrow> \<not> listening c \<and> mouseEventBuffer c = [] \<and> timers c = []) \<and>
     (state c \<noteq> PASSIVE \<longrightarrow> listening c \<and> mouseEventBuffer c \<noteq> []) \<and>
     (\<forall>t \<in> set (timers c). timeoutId c = Some (fst t)) \<and>
     (\<forall>i. timeoutId c = Some i \<longrightarrow> 0 < i \<and> i < nextTimer c) \<and>
     0 < nextTimer c \<and> length (timers c) \<le> 1"

section \<open>RockerGestureController\<close>

















section \<open>WheelGestureController\<close>

datatype wheel_signal = wheelup | wheeldown

record wheel_controller =
  mouseButton1 :: nat
  wheelSensitivity :: real
  preventDefault2 :: bool
  lastMouseup1 :: real
  accumulatedDeltaY :: real

definition WheelGestureController :: wheel_controller where
  "WheelGestureController =
     \<lparr> mouseButton1 = 1, wheelSensitivity = 2, preventDefault2 = True,
       lastMouseup1 = 0, accumulatedDeltaY = 0 \<rparr>"

definition handleMousedown2 :: "dom_event \<Rightarrow> wheel_controller \<Rightarrow> wheel_controller \<times> bool" where
  "handleMousedown2 event w =
     (if isTrusted event then
        (w \<lparr> preventDefault2 := False, accumulatedDeltaY := 0 \<rparr>,
         mouseButton1 w = 4 \<and> buttons event = 4)
      else (w, False))"

text \<open>
  The three steps of \<open>handleWheel\<close> in the order of the source: the reset on a change of
  sign, the addition of the new delta, the comparison with the sensitivity.
\<close>

definition handleWheel ::
  "dom_event \<Rightarrow> wheel_controller \<Rightarrow> wheel_controller \<times> wheel_signal list \<times> bool" where
  "handleWheel event w =
     (if isTrusted event \<and> buttons event = mouseButton1 w \<and> deltaY event \<noteq> 0 then
        let acc0 = (if (accumulatedDeltaY w < 0) \<noteq> (deltaY event < 0) then 0
                    else accumulatedDeltaY w);
            acc1 = acc0 + deltaY event;
            (sigs, acc2) =
              (if \<bar>acc1\<bar> \<ge> wheelSensitivity w then
                 (if acc1 < 0 then [wheelup] else if acc1 > 0 then [wheeldown] else [], 0)
               else ([], acc1))
        in (w \<lparr> accumulatedDeltaY := acc2, preventDefault2 := True \<rparr>, sigs, True)
      else (w, [], False))"

definition handleMouseup2 :: "dom_event \<Rightarrow> wheel_controller \<Rightarrow> wheel_controller" where
  "handleMouseup2 event w = w \<lparr> lastMouseup1 := timeStamp event \<rparr>"

definition handleVisibilitychange1 :: "wheel_controller \<Rightarrow> wheel_controller" where
  "handleVisibilitychange1 w = w \<lparr> preventDefault2 := True, accumulatedDeltaY := 0 \<rparr>"

definition handleContextmenu2 :: "dom_event \<Rightarrow> wheel_controller \<Rightarrow> bool" where
  "handleContextmenu2 event w \<longleftrightarrow>
     isTrusted event \<and> preventDefault2 w \<and> button event = toSingleButton (mouseButton1 w) \<and>
     mouseButton1 w = 2"

definition handleClick1 :: "dom_event \<Rightarrow> wheel_controller \<Rightarrow> bool" where
  "handleClick1 event w \<longleftrightarrow>
     isTrusted event \<and> preventDefault2 w \<and> button event = toSingleButton (mouseButton1 w) \<and>
     (mouseButton1 w = 1 \<or> mouseButton1 w = 4) \<and> detail event \<noteq> 0 \<and>
     timeStamp event = lastMouseup1 w"

section \<open>PatternConstructor\<close>

text \<open>
  A field that holds \<open>null\<close> or a number is a \<open>real option\<close>.  \<open>num\<close> is the conversion
  the language applies when such a field takes part in a subtraction: \<open>null\<close> counts as
  \<open>0\<close>.  The field \<open>distanceThreshold\<close> of the class is \<open>pcDistanceThreshold\<close> here,
  the mouse gesture controller having a variable of the same name.
\<close>

fun num :: "real option \<Rightarrow> real" where
  "num None = 0"
| "num (Some v) = v"

record pattern_constructor =
  differenceThreshold :: real
  pcDistanceThreshold :: real
  lastExtractedPointX :: "real option"
  lastExtractedPointY :: "real option"
  previousPointX :: "real option"
  previousPointY :: "real option"
  lastPointX :: "real option"
  lastPointY :: "real option"
  previousVectoX :: "real option"
  previousVectoY :: "real option"
  extracedVectors :: "(real \<times> real) list"

definition PatternConstructor :: "real \<Rightarrow> real \<Rightarrow> pattern_constructor" where
  "PatternConstructor differenceThreshold' distanceThreshold' =
     \<lparr> differenceThreshold = differenceThreshold',
       pcDistanceThreshold = distanceThreshold',
       lastExtractedPointX = None, lastExtractedPointY = None,
       previousPointX = None, previousPointY = None,
       lastPointX = None, lastPointY = None,
       previousVectoX = None, previousVectoY = None,
       extracedVectors = [] \<rparr>"

definition clear :: "pattern_constructor \<Rightarrow> pattern_constructor" where
  "clear this =
     this \<lparr> extracedVectors := [],
            lastExtractedPointX := None, lastExtractedPointY := None,
            previousPointX := None, previousPointY := None,
            lastPointX := None, lastPointY := None,
            previousVectoX := None, previousVectoY := None \<rparr>"

definition atan2 :: "real \<Rightarrow> real \<Rightarrow> real" where
  "atan2 y x =
     (if 0 < x then arctan (y / x)
      else if x < 0 \<and> 0 \<le> y then arctan (y / x) + pi
      else if x < 0 then arctan (y / x) - pi
      else if 0 < y then pi / 2
      else if y < 0 then - (pi / 2)
      else 0)"

definition vectorDirectionDifference :: "real \<Rightarrow> real \<Rightarrow> real \<Rightarrow> real \<Rightarrow> real" where
  "vectorDirectionDifference V1X V1Y V2X V2Y =
     (let angleDifference = atan2 V1X V1Y - atan2 V2X V2Y;
          angleDifference' =
            (if angleDifference > pi then angleDifference - 2 * pi
             else if angleDifference \<le> - pi then angleDifference + 2 * pi
             else angleDifference)
      in angleDifference' / pi)"

text \<open>
  \<open>addPoint\<close> returns the change indicator together with the updated object.  The
  branches are those of the source, and each \<open>changeIndicator++\<close> is an added \<open>1\<close>.
\<close>

definition addPoint :: "pattern_constructor \<Rightarrow> real \<Rightarrow> real \<Rightarrow> nat \<times> pattern_constructor" where
  "addPoint this x y =
     (let (changeIndicator, this') =
        (if previousPointX this = None \<or> previousPointY this = None then
           (0, this \<lparr> lastExtractedPointX := Some x, lastExtractedPointY := Some y,
                      previousPointX := Some x, previousPointY := Some y \<rparr>)
         else
           let newVX = x - num (previousPointX this);
               newVY = y - num (previousPointY this);
               vectorDistance = hypot newVX newVY
           in
             if vectorDistance > pcDistanceThreshold this then
               let (changeIndicator1, this1) =
                 (if previousVectoX this = None \<or> previousVectoY this = None then
                    (0, this \<lparr> previousVectoX := Some newVX, previousVectoY := Some newVY \<rparr>)
                  else
                    let vectorDifference =
                          vectorDirectionDifference (num (previousVectoX this))
                            (num (previousVectoY this)) newVX newVY
                    in
                      if \<bar>vectorDifference\<bar> > differenceThreshold this then
                        (1, this \<lparr> extracedVectors := extracedVectors this @
                                     [(num (previousPointX this) - num (lastExtractedPointX this),
                                       num (previousPointY this) - num (lastExtractedPointY this))],
                                   previousVectoX := Some newVX, previousVectoY := Some newVY,
                                   lastExtractedPointX := previousPointX this,
                                   lastExtractedPointY := previousPointY this \<rparr>)
                      else (0, this))
               in (changeIndicator1 + 1,
                   this1 \<lparr> previousPointX := Some x, previousPointY := Some y \<rparr>)
             else (0, this))
      in (changeIndicator, this' \<lparr> lastPointX := Some x, lastPointY := Some y \<rparr>))"

definition getPattern :: "pattern_constructor \<Rightarrow> (real \<times> real) list" where
  "getPattern this =
     (if lastPointX this = None \<or> lastPointY this = None \<or>
         lastExtractedPointX this = None \<or> lastExtractedPointY this = None
      then []
      else extracedVectors this @
             [(num (lastPointX this) - num (lastExtractedPointX this),
               num (lastPointY this) - num (lastExtractedPointY this))])"

text \<open>
  A use of the object is a sequence of calls.  \<open>pcRun\<close> performs them on a new object
  and records beside the object what the calls did since the last \<open>clear\<close>:
  \<open>added\<close> lists the points passed to \<open>addPoint\<close>; \<open>confirmed\<close> counts the calls of
  \<open>addPoint\<close> that returned \<open>2\<close>; \<open>anchor\<close> is the first point, and after that the point
  of the last call that did not return \<open>0\<close>; \<open>extractedFrom\<close> is the first point, and after
  that the anchor as it was when the last call that returned \<open>2\<close> was made; \<open>segments\<close>
  collects, at each call that returned \<open>2\<close>, the vector from \<open>extractedFrom\<close> to the
  anchor as they were when the call was made.  The record is computed from the arguments and
  the return values of the calls only, never from the fields of the object.
\<close>

datatype pc_call = AddPoint real real | Clear

record pc_run =
  pcObject :: pattern_constructor
  added :: "(real \<times> real) list"
  confirmed :: nat
  anchor :: "(real \<times> real) option"
  extractedFrom :: "(real \<times> real) option"
  segments :: "(real \<times> real) list"

fun pcCall :: "pc_run \<Rightarrow> pc_call \<Rightarrow> pc_run" where
  "pcCall R (AddPoint x y) =
     (let changeIndicator = fst (addPoint (pcObject R) x y)
      in \<lparr> pcObject = snd (addPoint (pcObject R) x y),
           added = added R @ [(x, y)],
           confirmed = (if changeIndicator = 2 then confirmed R + 1 else confirmed R),
           anchor =
             (if added R = [] \<or> changeIndicator \<noteq> 0 then Some (x, y) else anchor R),
           extractedFrom =
             (if added R = [] then Some (x, y)
              else if changeIndicator = 2 then anchor R
              else extractedFrom R),
           segments =
             (if added R \<noteq> [] \<and> changeIndicator = 2 then
                segments R @
                  [(fst (the (anchor R)) - fst (the (extractedFrom R)),
                    snd (the (anchor R)) - snd (the (extractedFrom R)))]
              else segments R) \<rparr>)"
| "pcCall R Clear =
     \<lparr> pcObject = clear (pcObject R), added = [], confirmed = 0,
       anchor = None, extractedFrom = None, segments = [] \<rparr>"

definition pcRun :: "real \<Rightarrow> real \<Rightarrow> pc_call list \<Rightarrow> pc_run" where
  "pcRun a b calls =
     foldl pcCall
       \<lparr> pcObject = PatternConstructor a b, added = [], confirmed = 0,
         anchor = None, extractedFrom = None, segments = [] \<rparr> calls"

text \<open>
  \<open>pcInv\<close> relates the fields of the object to the record of the calls.
\<close>

definition pcInv :: "pc_run \<Rightarrow> bool" where
  "pcInv R =
     (extracedVectors (pcObject R) = segments R \<and>
      length (segments R) = confirmed R \<and>
      (if added R = [] then
         lastPointX (pcObject R) = None \<and> lastPointY (pcObject R) = None \<and>
         lastExtractedPointX (pcObject R) = None \<and> lastExtractedPointY (pcObject R) = None \<and>
         previousPointX (pcObject R) = None \<and> previousPointY (pcObject R) = None \<and>
         anchor R = None \<and> extractedFrom R = None \<and> segments R = []
       else
         lastPointX (pcObject R) = Some (fst (last (added R))) \<and>
         lastPointY (pcObject R) = Some (snd (last (added R))) \<and>
         anchor R \<noteq> None \<and>
         previousPointX (pcObject R) = map_option fst (anchor R) \<and>
         previousPointY (pcObject R) = map_option snd (anchor R) \<and>
         extractedFrom R \<noteq> None \<and>
         lastExtractedPointX (pcObject R) = map_option fst (extractedFrom R) \<and>
         lastExtractedPointY (pcObject R) = map_option snd (extractedFrom R) \<and>
         fst (the (extractedFrom R)) = fst (hd (added R)) + sum_list (map fst (segments R)) \<and>
         snd (the (extractedFrom R)) = snd (hd (added R)) + sum_list (map snd (segments R))))"

section \<open>The blacklist matcher\<close>

text \<open>
  Characters are 8-bit code units.  \<open>specialCharacters\<close> is the character class of the
  regular expression in \<open>matchesCurrentURL\<close>, with the members of its white-space class that are
  code units below 256.
\<close>

definition backslash :: char where
  "backslash = CHR 0x5C"

definition whitespace :: "char list" where
  "whitespace = [CHR 0x09, CHR 0x0A, CHR 0x0B, CHR 0x0C, CHR 0x0D, CHR 0x20, CHR 0xA0]"

definition specialCharacters :: "char list" where
  "specialCharacters = ''-[]{}()*+?.,'' @ [backslash] @ ''^$|#'' @ whitespace"

definition replaceMatch :: "char \<Rightarrow> string" where
  "replaceMatch match = (if match = CHR ''*'' then ''.*'' else [backslash, match])"

definition replaceSpecial :: "string \<Rightarrow> string" where
  "replaceSpecial urlPattern =
     concat (map (\<lambda>c. if c \<in> set specialCharacters then replaceMatch c else [c]) urlPattern)"

text \<open>
  \<open>RegExp\<close> is part of the language.  Its model covers the expressions that consist of
  literal characters, escaped characters, the dot and the star, between \<open>^\<close> and \<open>$\<close>;
  on any other source text it answers \<open>None\<close>.  The dot matches every character but a
  line terminator, and an escaped character that is not a letter or a digit matches
  itself.
\<close>

datatype rx_atom = Lit char | AnyChar

datatype rx_item = One rx_atom | Star rx_atom

definition syntaxCharacters :: "char list" where
  "syntaxCharacters = ''^$.*+?()[]{}|'' @ [backslash]"

definition alphanumeric :: "char \<Rightarrow> bool" where
  "alphanumeric c \<longleftrightarrow>
     c \<in> set ''abcdefghijklmnopqrstuvwxyzABCDEFGHIJKLMNOPQRSTUVWXYZ0123456789''"

definition lineTerminators :: "char list" where
  "lineTerminators = [CHR 0x0A, CHR 0x0D]"

fun parseRx :: "string \<Rightarrow> rx_item list option" where
  "parseRx [] = Some []"
| "parseRx [c] =
     (if c = CHR ''.'' then Some [One AnyChar]
      else if c \<in> set syntaxCharacters then None
      else Some [One (Lit c)])"
| "parseRx (c # d # cs) =
     (if c = backslash then
        if alphanumeric d then None
        else (case cs of
                [] \<Rightarrow> Some [One (Lit d)]
              | e # es \<Rightarrow>
                  if e = CHR ''*'' then map_option (Cons (Star (Lit d))) (parseRx es)
                  else map_option (Cons (One (Lit d))) (parseRx (e # es)))
      else if c = CHR ''.'' then
        if d = CHR ''*'' then map_option (Cons (Star AnyChar)) (parseRx cs)
        else map_option (Cons (One AnyChar)) (parseRx (d # cs))
      else if c \<in> set syntaxCharacters then None
      else if d = CHR ''*'' then map_option (Cons (Star (Lit c))) (parseRx cs)
      else map_option (Cons (One (Lit c))) (parseRx (d # cs)))"

fun atomMatches :: "rx_atom \<Rightarrow> char \<Rightarrow> bool" where
  "atomMatches (Lit d) c = (c = d)"
| "atomMatches AnyChar c = (c \<notin> set lineTerminators)"

fun matchItems :: "rx_item list \<Rightarrow> string \<Rightarrow> bool" where
  "matchItems [] s = (s = [])"
| "matchItems (One a # r) [] = False"
| "matchItems (One a # r) (c # s) = (atomMatches a c \<and> matchItems r s)"
| "matchItems (Star a # r) [] = matchItems r []"
| "matchItems (Star a # r) (c # s) =
     (matchItems r (c # s) \<or> (atomMatches a c \<and> matchItems (Star a # r) s))"

definition RegExp_test :: "string \<Rightarrow> string \<Rightarrow> bool option" where
  "RegExp_test source s =
     (case source of
        [] \<Rightarrow> None
      | c # rest \<Rightarrow>
          if c = CHR ''^'' \<and> rest \<noteq> [] \<and> last rest = CHR ''$''
          then map_option (\<lambda>items. matchItems items s) (parseRx (butlast rest))
          else None)"

text \<open>\<open>matchesCurrentURL\<close>, with \<open>window.location.href\<close> as its second argument.\<close>

definition matchesCurrentURL :: "string \<Rightarrow> string \<Rightarrow> bool option" where
  "matchesCurrentURL urlPattern href =
     (let pattern = replaceSpecial urlPattern
      in RegExp_test (''^'' @ pattern @ ''$'') href)"

text \<open>
  The matching the specification describes, in its words: the pattern is matched against
  the whole URL, a \<open>*\<close> stands for any sequence of characters, and every other character
  of the pattern stands for itself.
\<close>

inductive glob :: "string \<Rightarrow> string \<Rightarrow> bool" where
  glob_end: "glob [] []"
| glob_star: "glob ps s \<Longrightarrow> glob (CHR ''*'' # ps) (w @ s)"
| glob_char: "c \<noteq> CHR ''*'' \<Longrightarrow> glob ps s \<Longrightarrow> glob (c # ps) (c # s)"

definition globItem :: "char \<Rightarrow> rx_item" where
  "globItem c = (if c = CHR ''*'' then Star AnyChar else One (Lit c))"

section \<open>Example inputs\<close>

text \<open>
  The values on which the theorems below are evaluated.  \<open>stringKeys\<close> fixes the two
  operations of the language for the examples, all of which use string keys: a string is
  its own property key, and a property read that finds no own property finds the methods
  of \<open>Object.prototype\<close> under their names and that object itself under \<open>__proto__\<close>.
\<close>

definition objectPrototype :: "(string \<times> jsval) list" where
  "objectPrototype =
     [(''constructor'', JFun 100), (''hasOwnProperty'', JFun 101),
      (''isPrototypeOf'', JFun 102), (''propertyIsEnumerable'', JFun 103),
      (''toLocaleString'', JFun 104), (''toString'', JFun 105), (''valueOf'', JFun 106),
      (''__defineGetter__'', JFun 107), (''__defineSetter__'', JFun 108),
      (''__lookupGetter__'', JFun 109), (''__lookupSetter__'', JFun 110)]"

definition stringKeys :: js_builtins where
  "stringKeys =
     \<lparr> toPropertyKey = (\<lambda>v. case v of JStr s \<Rightarrow> s | _ \<Rightarrow> ''[object Object]''),
       inheritedProperty =
         (\<lambda>k. case map_of objectPrototype k of
                 Some f \<Rightarrow> f
               | None \<Rightarrow> if k = ''__proto__'' then JObj objectPrototype else JUndefined) \<rparr>"

text \<open>The object the content script constructs, before its configuration has loaded.\<close>

definition syncConfig :: config_manager where
  "syncConfig =
     \<lparr> storageArea = ''sync'', storage = [], defaults = JsonObj [],
       cmEvents = [(''change'', [])], autoUpdate = False \<rparr>"

text \<open>A trusted pointer sample at a position, with the right button held.\<close>

definition sample :: "real \<Rightarrow> real \<Rightarrow> real \<Rightarrow> dom_event" where
  "sample t x y =
     \<lparr> isTrusted = True, buttons = 2, button = 2, clientX = x, clientY = y, deltaY = 0,
       detail = 0, timeStamp = t, key = [], repeat = False, truthy = (\<lambda>name. False) \<rparr>"

definition keyPress :: "real \<Rightarrow> string \<Rightarrow> dom_event" where
  "keyPress t k =
     \<lparr> isTrusted = True, buttons = 0, button = 0, clientX = 0, clientY = 0, deltaY = 0,
       detail = 0, timeStamp = t, key = k, repeat = False, truthy = (\<lambda>name. False) \<rparr>"

text \<open>
  The controller enabled with the shift key as suppression key; the same after a press;
  after a move of 50 pixels; and after the shift key went down during that stroke.
\<close>

definition ready :: mouse_gesture_controller where
  "ready = (enable MouseGestureController) \<lparr> suppressionKey := ''shiftKey'' \<rparr>"

definition pressed :: mouse_gesture_controller where
  "pressed = dispatch 0 (Pointerdown (sample 0 0 0)) ready"

definition stroke :: mouse_gesture_controller where
  "stroke = dispatch 10 (Pointermove (sample 10 50 0)) pressed"

definition abortedStroke :: mouse_gesture_controller where
  "abortedStroke = dispatch 20 (Keydown (keyPress 20 ''Shift'')) stroke"

text \<open>A stroke with the timeout enabled, after its first update at time 20.\<close>

definition timedStroke :: mouse_gesture_controller where
  "timedStroke =
     run (ready \<lparr> timeoutActive := True \<rparr>)
       [(0, Pointerdown (sample 0 0 0)), (10, Pointermove (sample 10 50 0)),
        (20, Pointermove (sample 20 60 0))]"




definition wheelSample :: "nat \<Rightarrow> real \<Rightarrow> dom_event" where
  "wheelSample held d =
     \<lparr> isTrusted = True, buttons = held, button = 0, clientX = 0, clientY = 0, deltaY = d,
       detail = 0, timeStamp = 0, key = [], repeat = False, truthy = (\<lambda>name. False) \<rparr>"

text \<open>
  The pattern constructor of the content script after the points \<open>(0, 0)\<close> and
  \<open>(20, 0)\<close>.
\<close>

definition straightStroke :: pattern_constructor where
  "straightStroke = snd (addPoint (snd (addPoint (PatternConstructor 0.12 10) 0 0)) 20 0)"

chapter \<open>Properties\<close>

section \<open>Distances and directions\<close>

lemma hypot_nonneg: "0 \<le> hypot a b"
  unfolding hypot_def by simp

lemma hypot_gt_iff: "hypot a b > t \<longleftrightarrow> t < 0 \<or> a * a + b * b > t * t"
proof (cases "t < 0")
  case True
  then show ?thesis using hypot_nonneg [of a b] by simp
next
  case False
  then have t: "0 \<le> t" by simp
  have "t < sqrt (a * a + b * b) \<longleftrightarrow> sqrt (t * t) < sqrt (a * a + b * b)"
    using t by simp
  also have "\<dots> \<longleftrightarrow> t * t < a * a + b * b"
    by (rule real_sqrt_less_iff)
  finally show ?thesis using False by (simp add: hypot_def)
qed

lemma vectorDirectionDifference_same: "vectorDirectionDifference a b a b = 0"
  by (simp add: vectorDirectionDifference_def not_le)

lemma vectorDirectionDifference_quarter: "vectorDirectionDifference 20 0 0 20 = 1 / 2"
proof -
  have "atan2 20 0 = pi / 2" by (simp add: atan2_def)
  moreover have "atan2 0 20 = 0" by (simp add: atan2_def)
  moreover have "\<not> pi / 2 > pi" using pi_gt_zero by linarith
  moreover have "\<not> pi / 2 \<le> - pi" using pi_gt_zero by linarith
  ultimately show ?thesis by (simp add: vectorDirectionDifference_def)
qed

lemma vectorDirectionDifference_parallel: "vectorDirectionDifference 20 0 25 0 = 0"
proof -
  have "atan2 20 0 = pi / 2" by (simp add: atan2_def)
  moreover have "atan2 25 0 = pi / 2" by (simp add: atan2_def)
  ultimately have "atan2 20 0 - atan2 25 0 = 0" by simp
  then show ?thesis by (simp add: vectorDirectionDifference_def not_le)
qed

section \<open>ConfigManager: misuse\<close>

lemma ConfigManager_sync: "ConfigManager (JStr ''sync'') JUndefined = Inr syncConfig"
  by (simp add: ConfigManager_def syncConfig_def)

lemma constructor_throws:
  "(ConfigManager a d = Inl (Thrown storageAreaMessage) \<longleftrightarrow>
      a \<noteq> JStr ''local'' \<and> a \<noteq> JStr ''sync'') \<and>
   (ConfigManager a d = Inl (Thrown defaultsURLMessage) \<longleftrightarrow>
      (a = JStr ''local'' \<or> a = JStr ''sync'') \<and> \<not> isString d \<and> d \<noteq> JUndefined) \<and>
   ((\<exists>this. ConfigManager a d = Inr this) \<longleftrightarrow>
      (a = JStr ''local'' \<or> a = JStr ''sync'') \<and> (isString d \<or> d = JUndefined))"
  by (auto simp add: ConfigManager_def storageAreaMessage_def defaultsURLMessage_def)

lemma get_throws:
  "ConfigManager_get B this p = Inl (Thrown storagePathMessage) \<longleftrightarrow>
     \<not> isString p \<and> \<not> isArray p \<and> p \<noteq> JUndefined"
  by (cases p) (simp_all add: ConfigManager_get_def Let_def cloneObject_def split: option.splits sum.splits)

lemma hasOwnProperty_error: "hasOwnProperty entry k = Inl e \<Longrightarrow> \<exists>m. e = TypeError m"
  by (auto simp add: hasOwnProperty_def split: if_splits)

lemma childObject_error: "childObject entry k = Inl e \<Longrightarrow> \<exists>m. e = TypeError m"
  by (auto simp add: childObject_def dest: hasOwnProperty_error split: sum.splits)

lemma assignPath_error:
  "fst (assignPath ks v entry) = Some e \<Longrightarrow> v = Inl e \<or> (\<exists>m. e = TypeError m)"
proof (induction ks v entry rule: assignPath.induct)
  case (1 v entry)
  then show ?case by simp
next
  case (2 k v entry)
  then show ?case by (auto split: sum.splits)
next
  case (3 k k' ks v entry)
  show ?case
  proof (cases "childObject entry k")
    case (Inl e')
    then show ?thesis using "3.prems" childObject_error [OF Inl] by auto
  next
    case (Inr child)
    then show ?thesis using "3.prems" "3.IH" [OF Inr] by simp
  qed
qed

lemma deletePath_error: "deletePath ks entry = Inl e \<Longrightarrow> \<exists>m. e = TypeError m"
proof (induction ks entry rule: deletePath.induct)
  case (1 entry)
  then show ?case by simp
next
  case (2 k entry)
  then show ?case by simp
next
  case (3 k k' ks entry)
  then show ?case
    by (auto dest: hasOwnProperty_error split: sum.splits option.splits json.splits if_splits)
qed

lemma cloneObject_error: "cloneObject v = Inl e \<Longrightarrow> e = SyntaxError"
  by (auto simp add: cloneObject_def split: option.splits)

lemma set_throws:
  "fst (ConfigManager_set B this args) = Inl (Thrown storagePathMessage) \<longleftrightarrow>
     \<not> isString (argument args 0) \<and> \<not> isArray (argument args 0) \<and>
     \<not> (length args = 1 \<and> isObject (argument args 0))"
proof -
  have store: "fst (case assignPath ks (cloneObject v) entry of
                  (Some e, storage') \<Rightarrow> (Inl e, this \<lparr> storage := storage' \<rparr>)
                | (None, storage') \<Rightarrow> (Inr StoragePromise, this \<lparr> storage := storage' \<rparr>))
               \<noteq> Inl (Thrown storagePathMessage)" for ks v entry
    using assignPath_error [of ks "cloneObject v" entry "Thrown storagePathMessage"]
      cloneObject_error [of v "Thrown storagePathMessage"]
    by (auto split: prod.splits option.splits)
  have clone: "fst (case cloneObject v of
                  Inl e \<Rightarrow> (Inl e, this)
                | Inr w \<Rightarrow> (Inr StoragePromise, this \<lparr> storage := propertiesOf w \<rparr>))
               \<noteq> Inl (Thrown storagePathMessage)" for v
    using cloneObject_error [of v "Thrown storagePathMessage"] by (auto split: sum.splits)
  show ?thesis
    by (cases "argument args 0") (simp_all add: ConfigManager_set_def Let_def store clone)
qed

lemma remove_throws:
  "fst (ConfigManager_remove B this p) = Inl (Thrown storagePathMessage) \<longleftrightarrow>
     \<not> isString p \<and> \<not> isArray p"
proof -
  have erase: "fst (case deletePath ks entry of
                  Inl e \<Rightarrow> (Inl e, this)
                | Inr None \<Rightarrow> (Inr (Value JUndefined), this)
                | Inr (Some storage') \<Rightarrow> (Inr StoragePromise, this \<lparr> storage := storage' \<rparr>))
               \<noteq> Inl (Thrown storagePathMessage)" for ks entry
    using deletePath_error [of ks entry "Thrown storagePathMessage"]
    by (auto split: sum.splits option.splits)
  show ?thesis
    by (cases p) (simp_all add: ConfigManager_remove_def Let_def erase)
qed

lemma listener_throws:
  "(fst (ConfigManager_addEventListener B this event callback) = Inl (Thrown eventMessage) \<longleftrightarrow>
      map_of (cmEvents this) (toPropertyKey B event) = None) \<and>
   (fst (ConfigManager_addEventListener B this event callback) = Inl (Thrown callbackMessage) \<longleftrightarrow>
      map_of (cmEvents this) (toPropertyKey B event) \<noteq> None \<and> \<not> isFunction callback) \<and>
   (ConfigManager_hasEventListener B this event callback = Inl (Thrown eventMessage) \<longleftrightarrow>
      map_of (cmEvents this) (toPropertyKey B event) = None) \<and>
   (ConfigManager_hasEventListener B this event callback = Inl (Thrown callbackMessage) \<longleftrightarrow>
      map_of (cmEvents this) (toPropertyKey B event) \<noteq> None \<and> \<not> isFunction callback) \<and>
   (ConfigManager_removeEventListener B this event callback = Inl (Thrown eventMessage) \<longleftrightarrow>
      map_of (cmEvents this) (toPropertyKey B event) = None) \<and>
   (ConfigManager_removeEventListener B this event callback = Inl (Thrown callbackMessage) \<longleftrightarrow>
      map_of (cmEvents this) (toPropertyKey B event) \<noteq> None \<and> \<not> isFunction callback)"
  by (auto simp add: ConfigManager_addEventListener_def ConfigManager_hasEventListener_def
        ConfigManager_removeEventListener_def eventMessage_def callbackMessage_def
        split: option.splits)

text \<open>
  Claim C9, as stated, fails: \<open>get\<close>, \<open>set\<close> and \<open>remove\<close> are said to throw whenever
  the storage path is neither a string nor an array.  A call of \<open>set\<close> with one argument
  that is an object replaces the stored configuration and returns the promise of the
  storage write, and a call of \<open>get\<close> with no path returns the whole configuration.
\<close>

theorem set_single_object_replaces:
  "ConfigManager (JStr ''sync'') JUndefined = Inr syncConfig \<and>
   \<not> isString (JObj [(''a'', JNull)]) \<and> \<not> isArray (JObj [(''a'', JNull)]) \<and>
   ConfigManager_set stringKeys syncConfig [JObj [(''a'', JNull)]] =
     (Inr StoragePromise, syncConfig \<lparr> storage := [(''a'', JsonNull)] \<rparr>) \<and>
   \<not> isString JUndefined \<and> \<not> isArray JUndefined \<and>
   ConfigManager_get stringKeys syncConfig JUndefined = Inr (JObj [])"
  by (simp add: ConfigManager_sync ConfigManager_set_def ConfigManager_get_def argument_def
        cloneObject_def propertiesOf_def stringKeys_def syncConfig_def)

text \<open>
  Claim C9, amended: the operations of \<open>ConfigManager\<close> throw on misuse.  The
  constructor throws exactly when the storage area is neither \<open>"local"\<close> nor \<open>"sync"\<close>, or
  the defaults URL is present and not a string.  \<open>get\<close> throws its path error exactly when
  the path is not a string, not an array and not omitted; \<open>set\<close> exactly when the path is
  not a string, not an array, and the call is not one with a single object argument;
  \<open>remove\<close> exactly when the path is neither a string nor an array.
  \<open>addEventListener\<close>, \<open>hasEventListener\<close> and \<open>removeEventListener\<close> throw the event
  error exactly when the event is not an own key of the event table, and the callback
  error exactly when the event is known and the callback is not a function.
\<close>

theorem config_misuse_throws:
  "(ConfigManager a d = Inl (Thrown storageAreaMessage) \<longleftrightarrow>
      a \<noteq> JStr ''local'' \<and> a \<noteq> JStr ''sync'') \<and>
   (ConfigManager a d = Inl (Thrown defaultsURLMessage) \<longleftrightarrow>
      (a = JStr ''local'' \<or> a = JStr ''sync'') \<and> \<not> isString d \<and> d \<noteq> JUndefined) \<and>
   ((\<exists>this. ConfigManager a d = Inr this) \<longleftrightarrow>
      (a = JStr ''local'' \<or> a = JStr ''sync'') \<and> (isString d \<or> d = JUndefined)) \<and>
   (ConfigManager_get B this p = Inl (Thrown storagePathMessage) \<longleftrightarrow>
      \<not> isString p \<and> \<not> isArray p \<and> p \<noteq> JUndefined) \<and>
   (fst (ConfigManager_set B this args) = Inl (Thrown storagePathMessage) \<longleftrightarrow>
      \<not> isString (argument args 0) \<and> \<not> isArray (argument args 0) \<and>
      \<not> (length args = 1 \<and> isObject (argument args 0))) \<and>
   (fst (ConfigManager_remove B this p) = Inl (Thrown storagePathMessage) \<longleftrightarrow>
      \<not> isString p \<and> \<not> isArray p) \<and>
   (fst (ConfigManager_addEventListener B this event callback) = Inl (Thrown eventMessage) \<longleftrightarrow>
      map_of (cmEvents this) (toPropertyKey B event) = None) \<and>
   (fst (ConfigManager_addEventListener B this event callback) = Inl (Thrown callbackMessage) \<longleftrightarrow>
      map_of (cmEvents this) (toPropertyKey B event) \<noteq> None \<and> \<not> isFunction callback) \<and>
   (ConfigManager_hasEventListener B this event callback = Inl (Thrown eventMessage) \<longleftrightarrow>
      map_of (cmEvents this) (toPropertyKey B event) = None) \<and>
   (ConfigManager_hasEventListener B this event callback = Inl (Thrown callbackMessage) \<longleftrightarrow>
      map_of (cmEvents this) (toPropertyKey B event) \<noteq> None \<and> \<not> isFunction callback) \<and>
   (ConfigManager_removeEventListener B this event callback = Inl (Thrown eventMessage) \<longleftrightarrow>
      map_of (cmEvents this) (toPropertyKey B event) = None) \<and>
   (ConfigManager_removeEventListener B this event callback = Inl (Thrown callbackMessage) \<longleftrightarrow>
      map_of (cmEvents this) (toPropertyKey B event) \<noteq> None \<and> \<not> isFunction callback)"
  using constructor_throws [of a d] get_throws [of B this p] set_throws [of B this args]
    remove_throws [of B this p] listener_throws [of B this event callback]
  by blast

theorem config_misuse_throws_witness:
  "ConfigManager (JStr ''session'') JUndefined = Inl (Thrown storageAreaMessage) \<and>
   ConfigManager_get stringKeys syncConfig (JNum 7) = Inl (Thrown storagePathMessage) \<and>
   fst (ConfigManager_set stringKeys syncConfig [JNum 7, JNull]) = Inl (Thrown storagePathMessage) \<and>
   fst (ConfigManager_remove stringKeys syncConfig (JNum 7)) = Inl (Thrown storagePathMessage) \<and>
   ConfigManager_hasEventListener stringKeys syncConfig (JStr ''load'') (JFun 1)
     = Inl (Thrown eventMessage) \<and>
   fst (ConfigManager_addEventListener stringKeys syncConfig (JStr ''change'') (JStr ''main''))
     = Inl (Thrown callbackMessage)"
  using config_misuse_throws [of "JStr ''session''" JUndefined stringKeys syncConfig "JNum 7"
      "[JNum 7, JNull]" "JStr ''load''" "JFun 1"]
    config_misuse_throws [of "JStr ''session''" JUndefined stringKeys syncConfig "JNum 7"
      "[JNum 7, JNull]" "JStr ''change''" "JStr ''main''"]
  by (simp add: argument_def stringKeys_def syncConfig_def)

section \<open>hasEventListener\<close>

lemma map_of_keys: "map fst xs = map fst ys \<Longrightarrow> (map_of xs k = None) = (map_of ys k = None)"
  by (metis map_of_eq_None_iff set_map)

lemma addEventListener_keys:
  "map fst (snd (addEventListener B registry event callback)) = map fst registry"
  by (auto simp add: addEventListener_def split: option.splits)

lemma ConfigManager_addEventListener_keys:
  "map fst (cmEvents (snd (ConfigManager_addEventListener B this event callback)))
     = map fst (cmEvents this)"
  by (auto simp add: ConfigManager_addEventListener_def split: option.splits)

text \<open>
  Claim C10, as stated, fails: \<open>hasEventListener\<close> is said to return \<open>undefined\<close> for
  every event name and callback.  The one of \<open>ConfigManager\<close> checks its arguments before
  the lookup and throws for an unknown event name and for a callback that is not a function.
\<close>

theorem hasEventListener_throws:
  "ConfigManager_hasEventListener stringKeys syncConfig (JStr ''foo'') (JFun 1)
     = Inl (Thrown eventMessage) \<and>
   ConfigManager_hasEventListener stringKeys syncConfig (JStr ''change'') (JStr ''main'')
     = Inl (Thrown callbackMessage)"
  by (simp add: ConfigManager_hasEventListener_def stringKeys_def syncConfig_def)

text \<open>
  Claim C10, amended: \<open>hasEventListener\<close> of the mouse, rocker and wheel controllers and
  of \<open>ConfigManager\<close> never returns the result of the membership test.  Whenever it
  returns, it returns \<open>undefined\<close>, and its outcome is the same for any two registries with
  the same event names, whatever callbacks they hold.  The one of a controller returns
  \<open>undefined\<close> for every event name of its registry and for every name that is no property
  of the registry, with any callback, also right after the callback has been added.  The one
  of \<open>ConfigManager\<close> returns \<open>undefined\<close> exactly when the event name is one of its
  registry and the callback is a function, also right after the callback has been added;
  it throws the event error exactly when the event name is not one of its registry, and the
  callback error exactly when the event name is one and the callback is not a function.
\<close>

theorem hasEventListener_undefined:
  "(\<forall>v. hasEventListener B registry event callback = Inr v \<longrightarrow> v = JUndefined) \<and>
   (\<forall>v. hasEventListener1 B registry event callback = Inr v \<longrightarrow> v = JUndefined) \<and>
   (\<forall>v. hasEventListener2 B registry event callback = Inr v \<longrightarrow> v = JUndefined) \<and>
   (\<forall>v. ConfigManager_hasEventListener B this event callback = Inr v \<longrightarrow> v = JUndefined) \<and>
   (map fst registry' = map fst registry \<longrightarrow>
      hasEventListener B registry' event callback = hasEventListener B registry event callback \<and>
      hasEventListener1 B registry' event callback = hasEventListener1 B registry event callback \<and>
      hasEventListener2 B registry' event callback = hasEventListener2 B registry event callback) \<and>
   (map fst (cmEvents this') = map fst (cmEvents this) \<longrightarrow>
      ConfigManager_hasEventListener B this' event callback =
      ConfigManager_hasEventListener B this event callback) \<and>
   (map_of registry (toPropertyKey B event) \<noteq> None \<longrightarrow>
      hasEventListener B registry event callback = Inr JUndefined \<and>
      hasEventListener1 B registry event callback = Inr JUndefined \<and>
      hasEventListener2 B registry event callback = Inr JUndefined \<and>
      hasEventListener B (snd (addEventListener B registry event callback)) event callback
        = Inr JUndefined) \<and>
   (map_of (cmEvents this) (toPropertyKey B event) \<noteq> None \<and> isFunction callback \<longrightarrow>
      ConfigManager_hasEventListener B this event callback = Inr JUndefined \<and>
      ConfigManager_hasEventListener B
        (snd (ConfigManager_addEventListener B this event callback)) event callback
        = Inr JUndefined) \<and>
   (\<not> inOperator B event registry \<longrightarrow>
      hasEventListener B registry event callback = Inr JUndefined \<and>
      hasEventListener1 B registry event callback = Inr JUndefined \<and>
      hasEventListener2 B registry event callback = Inr JUndefined) \<and>
   (ConfigManager_hasEventListener B this event callback = Inr JUndefined \<longleftrightarrow>
      map_of (cmEvents this) (toPropertyKey B event) \<noteq> None \<and> isFunction callback) \<and>
   (ConfigManager_hasEventListener B this event callback = Inl (Thrown eventMessage) \<longleftrightarrow>
      map_of (cmEvents this) (toPropertyKey B event) = None) \<and>
   (ConfigManager_hasEventListener B this event callback = Inl (Thrown callbackMessage) \<longleftrightarrow>
      map_of (cmEvents this) (toPropertyKey B event) \<noteq> None \<and> \<not> isFunction callback)"
proof -
  have 1: "\<forall>v. hasEventListener B registry event callback = Inr v \<longrightarrow> v = JUndefined"
    by (auto simp add: hasEventListener_def split: if_splits option.splits)
  have 2: "\<forall>v. hasEventListener1 B registry event callback = Inr v \<longrightarrow> v = JUndefined"
    by (auto simp add: hasEventListener1_def split: if_splits option.splits)
  have 3: "\<forall>v. hasEventListener2 B registry event callback = Inr v \<longrightarrow> v = JUndefined"
    by (auto simp add: hasEventListener2_def split: if_splits option.splits)
  have 4: "\<forall>v. ConfigManager_hasEventListener B this event callback = Inr v \<longrightarrow> v = JUndefined"
    by (auto simp add: ConfigManager_hasEventListener_def split: if_splits option.splits)
  have 5: "hasEventListener B registry' event callback = hasEventListener B registry event callback \<and>
      hasEventListener1 B registry' event callback = hasEventListener1 B registry event callback \<and>
      hasEventListener2 B registry' event callback = hasEventListener2 B registry event callback"
    if k: "map fst registry' = map fst registry"
  proof -
    have n: "(map_of registry' (toPropertyKey B event) = None) =
             (map_of registry (toPropertyKey B event) = None)"
      using k by (rule map_of_keys)
    have "hasEventListener B registry' event callback =
          hasEventListener B registry event callback"
      using n by (auto simp add: hasEventListener_def inOperator_def split: option.splits)
    moreover have "hasEventListener1 B registry' event callback =
          hasEventListener1 B registry event callback"
      using n by (auto simp add: hasEventListener1_def inOperator_def split: option.splits)
    moreover have "hasEventListener2 B registry' event callback =
          hasEventListener2 B registry event callback"
      using n by (auto simp add: hasEventListener2_def inOperator_def split: option.splits)
    ultimately show ?thesis by simp
  qed
  have 6: "ConfigManager_hasEventListener B this' event callback =
        ConfigManager_hasEventListener B this event callback"
    if k: "map fst (cmEvents this') = map fst (cmEvents this)"
  proof -
    have n: "(map_of (cmEvents this') (toPropertyKey B event) = None) =
             (map_of (cmEvents this) (toPropertyKey B event) = None)"
      using k by (rule map_of_keys)
    show ?thesis
      using n by (auto simp add: ConfigManager_hasEventListener_def split: option.splits)
  qed
  have 7: "hasEventListener B registry event callback = Inr JUndefined \<and>
      hasEventListener1 B registry event callback = Inr JUndefined \<and>
      hasEventListener2 B registry event callback = Inr JUndefined \<and>
      hasEventListener B (snd (addEventListener B registry event callback)) event callback
        = Inr JUndefined"
    if o: "map_of registry (toPropertyKey B event) \<noteq> None"
  proof -
    have "(map_of (snd (addEventListener B registry event callback)) (toPropertyKey B event)
             = None)
        = (map_of registry (toPropertyKey B event) = None)"
      using addEventListener_keys by (rule map_of_keys)
    then have "hasEventListener B (snd (addEventListener B registry event callback))
                 event callback = Inr JUndefined"
      using o by (auto simp add: hasEventListener_def inOperator_def)
    moreover have "hasEventListener B registry event callback = Inr JUndefined"
      using o by (auto simp add: hasEventListener_def inOperator_def)
    moreover have "hasEventListener1 B registry event callback = Inr JUndefined"
      using o by (auto simp add: hasEventListener1_def inOperator_def)
    moreover have "hasEventListener2 B registry event callback = Inr JUndefined"
      using o by (auto simp add: hasEventListener2_def inOperator_def)
    ultimately show ?thesis by simp
  qed
  have 8: "ConfigManager_hasEventListener B this event callback = Inr JUndefined \<and>
      ConfigManager_hasEventListener B
        (snd (ConfigManager_addEventListener B this event callback)) event callback
        = Inr JUndefined"
    if o: "map_of (cmEvents this) (toPropertyKey B event) \<noteq> None \<and> isFunction callback"
  proof -
    have "(map_of (cmEvents (snd (ConfigManager_addEventListener B this event callback)))
                  (toPropertyKey B event) = None)
        = (map_of (cmEvents this) (toPropertyKey B event) = None)"
      using ConfigManager_addEventListener_keys by (rule map_of_keys)
    then have "ConfigManager_hasEventListener B
          (snd (ConfigManager_addEventListener B this event callback)) event callback
          = Inr JUndefined"
      using o by (auto simp add: ConfigManager_hasEventListener_def)
    moreover have "ConfigManager_hasEventListener B this event callback = Inr JUndefined"
      using o by (auto simp add: ConfigManager_hasEventListener_def)
    ultimately show ?thesis by simp
  qed
  have 9: "hasEventListener B registry event callback = Inr JUndefined \<and>
      hasEventListener1 B registry event callback = Inr JUndefined \<and>
      hasEventListener2 B registry event callback = Inr JUndefined"
    if "\<not> inOperator B event registry"
    using that by (simp add: hasEventListener_def hasEventListener1_def hasEventListener2_def)
  have 10: "ConfigManager_hasEventListener B this event callback = Inr JUndefined \<longleftrightarrow>
      map_of (cmEvents this) (toPropertyKey B event) \<noteq> None \<and> isFunction callback"
    by (auto simp add: ConfigManager_hasEventListener_def split: option.splits)
  have 11: "ConfigManager_hasEventListener B this event callback = Inl (Thrown eventMessage) \<longleftrightarrow>
      map_of (cmEvents this) (toPropertyKey B event) = None"
    using listener_throws [of B this event callback] by blast
  have 12: "ConfigManager_hasEventListener B this event callback = Inl (Thrown callbackMessage) \<longleftrightarrow>
      map_of (cmEvents this) (toPropertyKey B event) \<noteq> None \<and> \<not> isFunction callback"
    using listener_throws [of B this event callback] by blast
  show ?thesis
    using 1 2 3 4 5 6 7 8 9 10 11 12 by blast
qed

theorem hasEventListener_undefined_witness:
  "map_of events (toPropertyKey stringKeys (JStr ''start'')) \<noteq> None \<and>
   hasEventListener stringKeys events (JStr ''start'') (JFun 1) = Inr JUndefined \<and>
   snd (addEventListener stringKeys events (JStr ''start'') (JFun 1)) =
     [(''start'', [JFun 1]), (''update'', []), (''abort'', []), (''end'', [])] \<and>
   hasEventListener stringKeys
     (snd (addEventListener stringKeys events (JStr ''start'') (JFun 1)))
     (JStr ''start'') (JFun 1) = Inr JUndefined \<and>
   map_of (cmEvents syncConfig) (toPropertyKey stringKeys (JStr ''change'')) \<noteq> None \<and>
   isFunction (JFun 1) \<and>
   ConfigManager_hasEventListener stringKeys
     (snd (ConfigManager_addEventListener stringKeys syncConfig (JStr ''change'') (JFun 1)))
     (JStr ''change'') (JFun 1) = Inr JUndefined \<and>
   \<not> inOperator stringKeys (JStr ''swipe'') events1 \<and>
   hasEventListener1 stringKeys events1 (JStr ''swipe'') (JFun 1) = Inr JUndefined \<and>
   map_of events2 (toPropertyKey stringKeys (JStr ''wheelup'')) \<noteq> None \<and>
   hasEventListener2 stringKeys events2 (JStr ''wheelup'') (JStr ''main'') = Inr JUndefined"
proof -
  have k: "map_of events (toPropertyKey stringKeys (JStr ''start'')) \<noteq> None"
    by (simp add: events_def stringKeys_def)
  have c: "map_of (cmEvents syncConfig) (toPropertyKey stringKeys (JStr ''change'')) \<noteq> None
           \<and> isFunction (JFun 1)"
    by (simp add: syncConfig_def stringKeys_def)
  have a: "snd (addEventListener stringKeys events (JStr ''start'') (JFun 1)) =
     [(''start'', [JFun 1]), (''update'', []), (''abort'', []), (''end'', [])]"
    by (simp add: addEventListener_def inOperator_def events_def stringKeys_def setAdd_def)
  have n: "\<not> inOperator stringKeys (JStr ''swipe'') events1"
    by (simp add: inOperator_def events1_def stringKeys_def objectPrototype_def)
  have w: "map_of events2 (toPropertyKey stringKeys (JStr ''wheelup'')) \<noteq> None"
    by (simp add: events2_def stringKeys_def)
  have 1: "hasEventListener stringKeys events (JStr ''start'') (JFun 1) = Inr JUndefined \<and>
     hasEventListener stringKeys
       (snd (addEventListener stringKeys events (JStr ''start'') (JFun 1)))
       (JStr ''start'') (JFun 1) = Inr JUndefined"
    using k hasEventListener_undefined [where B = stringKeys and registry = events
        and event = "JStr ''start''" and callback = "JFun 1"]
    by blast
  have 2: "ConfigManager_hasEventListener stringKeys
     (snd (ConfigManager_addEventListener stringKeys syncConfig (JStr ''change'') (JFun 1)))
     (JStr ''change'') (JFun 1) = Inr JUndefined"
    using c hasEventListener_undefined [where B = stringKeys
        and event = "JStr ''change''" and callback = "JFun 1" and this = syncConfig]
    by blast
  have 3: "hasEventListener1 stringKeys events1 (JStr ''swipe'') (JFun 1) = Inr JUndefined"
    using n hasEventListener_undefined [where B = stringKeys and registry = events1
        and event = "JStr ''swipe''" and callback = "JFun 1"]
    by blast
  have 4: "hasEventListener2 stringKeys events2 (JStr ''wheelup'') (JStr ''main'')
             = Inr JUndefined"
    using w hasEventListener_undefined [where B = stringKeys and registry = events2
        and event = "JStr ''wheelup''" and callback = "JStr ''main''"]
    by blast
  show ?thesis
    using k c a n w 1 2 3 4 by simp
qed

section \<open>MouseGestureController: the state machine\<close>

lemma wellFormed_init: "wellFormed MouseGestureController"
  by (simp add: wellFormed_def MouseGestureController_def)

lemma wellFormed_initialize: "wellFormed c \<Longrightarrow> wellFormed (initialize event c)"
  by (simp add: wellFormed_def initialize_def)

lemma wellFormed_preventDefaultOf: "wellFormed c \<Longrightarrow> wellFormed (preventDefaultOf c)"
  by (simp add: wellFormed_def preventDefaultOf_def)

lemma wellFormed_abort: "wellFormed c \<Longrightarrow> state c \<noteq> PASSIVE \<Longrightarrow> wellFormed (abort c)"
  by (simp add: wellFormed_def abort_def)

lemma timers_tracked:
  "wellFormed c \<Longrightarrow> timers c = [] \<or> (\<exists>i d. timers c = [(i, d)] \<and> timeoutId c = Some i \<and> 0 < i)"
  by (cases "timers c"; cases "tl (timers c)") (auto simp add: wellFormed_def)

lemma reset_fields:
  assumes "wellFormed c"
  shows "state (reset c) = PASSIVE" "listening (reset c) = False"
    "mouseEventBuffer (reset c) = []" "timers (reset c) = []" "timeoutId (reset c) = None"
    "nextTimer (reset c) = nextTimer c" "enabled (reset c) = enabled c"
    "dispatched (reset c) = dispatched c"
  using timers_tracked [OF assms] assms
  by (auto simp add: reset_def clearTimeout_def wellFormed_def Let_def
           elim!: truthyId.elims)

lemma wellFormed_reset: "wellFormed c \<Longrightarrow> wellFormed (reset c)"
  using reset_fields [of c] by (simp add: wellFormed_def)

lemma wellFormed_push:
  "wellFormed c \<Longrightarrow> listening c \<Longrightarrow> state c \<noteq> PASSIVE \<Longrightarrow>
   wellFormed (c \<lparr> mouseEventBuffer := mouseEventBuffer c @ [event] \<rparr>)"
  by (simp add: wellFormed_def)

lemma wellFormed_terminate: "wellFormed c \<Longrightarrow> wellFormed (terminate event c)"
proof -
  assume wf: "wellFormed c"
  have "wellFormed (reset c2)" if "timers c2 = timers c" "timeoutId c2 = timeoutId c"
    "nextTimer c2 = nextTimer c" for c2
  proof -
    have "timers (reset c2) = [] \<and> timeoutId (reset c2) = None \<and> state (reset c2) = PASSIVE \<and>
          \<not> listening (reset c2) \<and> mouseEventBuffer (reset c2) = [] \<and>
          nextTimer (reset c2) = nextTimer c"
      using timers_tracked [OF wf] wf that
      by (auto simp add: reset_def clearTimeout_def wellFormed_def Let_def elim!: truthyId.elims)
    then show ?thesis using wf by (simp add: wellFormed_def)
  qed
  then show ?thesis by (simp add: terminate_def Let_def)
qed

lemma update_PENDING:
  "state c = PENDING \<Longrightarrow>
   update now event c =
     (if getDistance (clientX (hd (mouseEventBuffer c @ [event])))
           (clientY (hd (mouseEventBuffer c @ [event]))) (clientX event) (clientY event)
           > distanceThreshold c
      then c \<lparr> mouseEventBuffer := mouseEventBuffer c @ [event],
               dispatched := dispatched c @
                 [OnStart (hd (mouseEventBuffer c @ [event])) (mouseEventBuffer c @ [event])],
               state := ACTIVE, preventDefault := True \<rparr>
      else c \<lparr> mouseEventBuffer := mouseEventBuffer c @ [event] \<rparr>)"
  by (simp add: update_def Let_def)

lemma update_ACTIVE:
  "state c = ACTIVE \<Longrightarrow>
   update now event c =
     (if timeoutActive c then
        c \<lparr> mouseEventBuffer := mouseEventBuffer c @ [event],
            dispatched := dispatched c @ [OnUpdate event (mouseEventBuffer c @ [event])],
            timers := (if truthyId (timeoutId c)
                       then filter (\<lambda>t. Some (fst t) \<noteq> timeoutId c) (timers c)
                       else timers c) @ [(nextTimer c, now + timeoutDuration c)],
            nextTimer := nextTimer c + 1,
            timeoutId := Some (nextTimer c) \<rparr>
      else c \<lparr> mouseEventBuffer := mouseEventBuffer c @ [event],
               dispatched := dispatched c @ [OnUpdate event (mouseEventBuffer c @ [event])] \<rparr>)"
  by (simp add: update_def Let_def setTimeout_def clearTimeout_def)

lemma update_other:
  "state c \<noteq> PENDING \<Longrightarrow> state c \<noteq> ACTIVE \<Longrightarrow>
   update now event c = c \<lparr> mouseEventBuffer := mouseEventBuffer c @ [event] \<rparr>"
  by (simp add: update_def Let_def)

lemma rearm_timers:
  assumes "wellFormed c"
  shows "(if truthyId (timeoutId c)
          then filter (\<lambda>t. Some (fst t) \<noteq> timeoutId c) (timers c)
          else timers c) = []"
  using timers_tracked [OF assms] assms by (auto simp add: wellFormed_def)

lemma wellFormed_update:
  assumes wf: "wellFormed c" and l: "listening c"
  shows "wellFormed (update now event c)"
proof -
  have np: "state c \<noteq> PASSIVE" using wf l by (auto simp add: wellFormed_def)
  show ?thesis
  proof (cases "state c")
    case PASSIVE
    then show ?thesis using np by simp
  next
    case PENDING
    then show ?thesis using wf by (simp add: update_PENDING wellFormed_def)
  next
    case ACTIVE
    then show ?thesis using wf rearm_timers [OF wf]
      by (simp add: update_ACTIVE wellFormed_def)
  next
    case ABORTED
    then show ?thesis using wf by (simp add: update_other wellFormed_def)
  qed
qed

lemma wellFormed_dispatch: "wellFormed c \<Longrightarrow> wellFormed (dispatch now i c)"
proof (cases i)
  case (Pointerdown event)
  assume "wellFormed c"
  then show ?thesis using Pointerdown
    by (simp add: handleMousedown_def Let_def wellFormed_initialize wellFormed_preventDefaultOf)
next
  case (Pointermove event)
  assume "wellFormed c"
  then show ?thesis using Pointermove by (simp add: handleMousemove_def wellFormed_update)
next
  case (Pointerup event)
  assume "wellFormed c"
  then show ?thesis using Pointerup by (simp add: handleMouseup_def wellFormed_terminate)
next
  case (Keydown event)
  assume wf: "wellFormed c"
  have "listening c \<Longrightarrow> state c \<noteq> PASSIVE" using wf by (auto simp add: wellFormed_def)
  then show ?thesis using Keydown wf
    by (simp add: handleKeydown_def wellFormed_abort wellFormed_preventDefaultOf)
next
  case (Dragstart event)
  assume "wellFormed c"
  then show ?thesis using Dragstart by (simp add: handleDragstart_def wellFormed_preventDefaultOf)
next
  case (Contextmenu event)
  assume "wellFormed c"
  then show ?thesis using Contextmenu
    by (simp add: handleContextmenu_def Let_def wellFormed_def preventDefaultOf_def)
next
  case (TimerFires n)
  assume wf: "wellFormed c"
  show ?thesis
  proof (cases "due now n c")
    case True
    then have "timers c \<noteq> []" by (auto simp add: due_def)
    then have "state c \<noteq> PASSIVE" using wf by (auto simp add: wellFormed_def)
    moreover have "filter (\<lambda>t. fst t \<noteq> n) (timers c) = []"
      using True timers_tracked [OF wf] by (auto simp add: due_def)
    ultimately show ?thesis using TimerFires True wf
      by (simp add: abort_def wellFormed_def)
  next
    case False
    then show ?thesis using TimerFires wf by simp
  qed
next
  case CallEnable
  assume "wellFormed c"
  then show ?thesis using CallEnable by (simp add: enable_def wellFormed_def)
next
  case CallDisable
  assume "wellFormed c"
  then have "wellFormed (c \<lparr> enabled := False \<rparr>)" by (simp add: wellFormed_def)
  then show ?thesis using CallDisable by (simp add: disable_def wellFormed_reset)
next
  case CallCancel
  assume "wellFormed c"
  then show ?thesis using CallCancel by (simp add: cancel_def wellFormed_reset)
qed

lemma wellFormed_run: "wellFormed c \<Longrightarrow> wellFormed (run c inputs)"
  by (induction c inputs rule: run.induct) (simp_all add: wellFormed_dispatch)

text \<open>Every state the module reaches from its initial state is well formed.\<close>

lemma reachable_wellFormed: "wellFormed (run MouseGestureController inputs)"
  using wellFormed_init by (rule wellFormed_run)

lemma state_initialize [simp]: "state (initialize event c) = PENDING"
  by (simp add: initialize_def)

lemma state_preventDefaultOf [simp]: "state (preventDefaultOf c) = state c"
  by (simp add: preventDefaultOf_def)

lemma state_abort [simp]: "state (abort c) = ABORTED"
  by (simp add: abort_def)

lemma state_reset [simp]: "state (reset c) = PASSIVE"
  by (simp add: reset_def Let_def clearTimeout_def)

lemma state_terminate [simp]: "state (terminate event c) = PASSIVE"
  by (simp add: terminate_def Let_def)

lemma state_handleMousedown:
  "state (handleMousedown event c) = (if matchingPress c event then PENDING else state c)"
  by (auto simp add: handleMousedown_def matchingPress_def Let_def)

lemma state_handleMouseup:
  "state (handleMouseup event c) = (if qualifyingRelease c event then PASSIVE else state c)"
  by (simp add: handleMouseup_def qualifyingRelease_def)

lemma state_handleKeydown:
  "state (handleKeydown event c) = (if suppressionKeyPress c event then ABORTED else state c)"
  by (simp add: handleKeydown_def suppressionKeyPress_def)

lemma state_handleDragstart [simp]: "state (handleDragstart event c) = state c"
  by (simp add: handleDragstart_def)

lemma state_handleContextmenu [simp]: "state (handleContextmenu event c) = state c"
  by (simp add: handleContextmenu_def Let_def preventDefaultOf_def)

lemma state_update:
  "state (update now event c) =
     (if state c = PENDING \<and>
         getDistance (clientX (hd (mouseEventBuffer c @ [event])))
           (clientY (hd (mouseEventBuffer c @ [event]))) (clientX event) (clientY event)
           > distanceThreshold c
      then ACTIVE else state c)"
  by (cases "state c") (simp_all add: update_PENDING update_ACTIVE update_other)

lemma state_dispatch:
  "state (dispatch now i c) =
     (case i of
        Pointerdown event \<Rightarrow> if enabled c \<and> matchingPress c event then PENDING else state c
      | Pointermove event \<Rightarrow>
          if listening c \<and> isTrusted event \<and> buttons event = mouseButton c \<and>
             state c = PENDING \<and>
             getDistance (clientX (hd (mouseEventBuffer c @ [event])))
               (clientY (hd (mouseEventBuffer c @ [event]))) (clientX event) (clientY event)
               > distanceThreshold c
          then ACTIVE else state c
      | Pointerup event \<Rightarrow> if listening c \<and> qualifyingRelease c event then PASSIVE else state c
      | Keydown event \<Rightarrow> if listening c \<and> suppressionKeyPress c event then ABORTED else state c
      | Dragstart event \<Rightarrow> state c
      | Contextmenu event \<Rightarrow> state c
      | TimerFires n \<Rightarrow> if due now n c then ABORTED else state c
      | CallEnable \<Rightarrow> state c
      | CallDisable \<Rightarrow> PASSIVE
      | CallCancel \<Rightarrow> PASSIVE)"
  by (cases i)
     (simp_all add: state_handleMousedown state_handleMouseup state_handleKeydown state_update
        handleMousemove_def enable_def disable_def cancel_def)

text \<open>The example states, evaluated.\<close>

lemma ready_eq:
  "ready =
     \<lparr> state = PASSIVE, preventDefault = True, timeoutId = None, mouseEventBuffer = [],
       mouseButton = 2, suppressionKey = ''shiftKey'', distanceThreshold = 10,
       timeoutActive = False, timeoutDuration = 1000,
       enabled = True, listening = False, timers = [], nextTimer = 1,
       dispatched = [], prevented = 0 \<rparr>"
  by (simp add: ready_def MouseGestureController_def enable_def)

lemma pressed_eq:
  "pressed =
     \<lparr> state = PENDING, preventDefault = False, timeoutId = None,
       mouseEventBuffer = [sample 0 0 0],
       mouseButton = 2, suppressionKey = ''shiftKey'', distanceThreshold = 10,
       timeoutActive = False, timeoutDuration = 1000,
       enabled = True, listening = True, timers = [], nextTimer = 1,
       dispatched = [], prevented = 0 \<rparr>"
  by (simp add: pressed_def ready_eq handleMousedown_def initialize_def sample_def)

lemma stroke_eq:
  "stroke =
     \<lparr> state = ACTIVE, preventDefault = True, timeoutId = None,
       mouseEventBuffer = [sample 0 0 0, sample 10 50 0],
       mouseButton = 2, suppressionKey = ''shiftKey'', distanceThreshold = 10,
       timeoutActive = False, timeoutDuration = 1000,
       enabled = True, listening = True, timers = [], nextTimer = 1,
       dispatched = [OnStart (sample 0 0 0) [sample 0 0 0, sample 10 50 0]], prevented = 0 \<rparr>"
  by (simp add: stroke_def pressed_eq handleMousemove_def update_PENDING getDistance_def
        hypot_gt_iff sample_def)

lemma abortedStroke_eq:
  "abortedStroke =
     \<lparr> state = ABORTED, preventDefault = True, timeoutId = None,
       mouseEventBuffer = [sample 0 0 0, sample 10 50 0],
       mouseButton = 2, suppressionKey = ''shiftKey'', distanceThreshold = 10,
       timeoutActive = False, timeoutDuration = 1000,
       enabled = True, listening = True, timers = [], nextTimer = 1,
       dispatched = [OnStart (sample 0 0 0) [sample 0 0 0, sample 10 50 0],
                     OnAbort [sample 0 0 0, sample 10 50 0]], prevented = 1 \<rparr>"
  by (simp add: abortedStroke_def stroke_eq handleKeydown_def pressedKey_def keyPress_def
        abort_def preventDefaultOf_def)

lemma timedStroke_eq:
  "timedStroke =
     \<lparr> state = ACTIVE, preventDefault = True, timeoutId = Some 1,
       mouseEventBuffer = [sample 0 0 0, sample 10 50 0, sample 20 60 0],
       mouseButton = 2, suppressionKey = ''shiftKey'', distanceThreshold = 10,
       timeoutActive = True, timeoutDuration = 1000,
       enabled = True, listening = True, timers = [(1, 1020)], nextTimer = 2,
       dispatched = [OnStart (sample 0 0 0) [sample 0 0 0, sample 10 50 0],
                     OnUpdate (sample 20 60 0) [sample 0 0 0, sample 10 50 0, sample 20 60 0]],
       prevented = 0 \<rparr>"
  by (simp add: timedStroke_def ready_eq handleMousedown_def initialize_def handleMousemove_def
        update_PENDING update_ACTIVE getDistance_def hypot_gt_iff sample_def)

text \<open>
  Claim C2, as stated, fails in its last part: from \<open>ABORTED\<close> the machine is said to
  return to \<open>PASSIVE\<close> unconditionally and immediately.  \<open>abort\<close> only sets the state;
  after the shift key aborted a stroke, the next move finds the machine in \<open>ABORTED\<close>
  and leaves it there.
\<close>

theorem aborted_state_persists:
  "state abortedStroke = ABORTED \<and>
   state (dispatch 30 (Pointermove (sample 30 60 0)) abortedStroke) \<noteq> PASSIVE \<and>
   state (dispatch 30 (Pointermove (sample 30 60 0)) abortedStroke) = ABORTED"
  by (simp add: abortedStroke_eq handleMousemove_def update_other sample_def)

text \<open>
  Claim C2, amended: the transitions of the state machine, as a step function over the
  events it handles, in every state the module can be in.  \<open>PASSIVE\<close> goes to \<open>PENDING\<close>
  exactly on a trusted press whose buttons mask equals the trigger button, with the
  suppression key absent or not held, and otherwise stays \<open>PASSIVE\<close>.  \<open>PENDING\<close> goes to
  \<open>ACTIVE\<close> exactly on a trusted move with the trigger button held whose distance from
  the initiating sample exceeds the distance threshold.  \<open>ACTIVE\<close> goes to \<open>PASSIVE\<close> on
  a qualifying release, which dispatches \<open>end\<close>, and goes to \<open>ABORTED\<close> exactly on a
  trusted non-repeat press of the suppression key or on the expiry of the timeout.
  \<open>ABORTED\<close> goes to \<open>PASSIVE\<close> exactly on a qualifying release or a call of \<open>cancel\<close> or
  \<open>disable\<close>, goes to \<open>PENDING\<close> exactly on a matching press, and otherwise stays
  \<open>ABORTED\<close> with its listeners attached and its buffer kept.
\<close>

theorem transition_table:
  assumes wf: "wellFormed c"
  shows
   "(state c = PASSIVE \<longrightarrow>
       (state (dispatch now i c) = PENDING \<longleftrightarrow>
          enabled c \<and> (\<exists>event. i = Pointerdown event \<and> matchingPress c event)) \<and>
       (state (dispatch now i c) \<noteq> PENDING \<longrightarrow> state (dispatch now i c) = PASSIVE)) \<and>
    (state c = PENDING \<longrightarrow>
       (state (dispatch now i c) = ACTIVE \<longleftrightarrow>
          (\<exists>event. i = Pointermove event \<and> isTrusted event \<and> buttons event = mouseButton c \<and>
             getDistance (clientX (hd (mouseEventBuffer c))) (clientY (hd (mouseEventBuffer c)))
               (clientX event) (clientY event) > distanceThreshold c))) \<and>
    (state c = ACTIVE \<longrightarrow>
       (\<forall>event. i = Pointerup event \<and> qualifyingRelease c event \<longrightarrow>
          state (dispatch now i c) = PASSIVE \<and>
          dispatched (dispatch now i c) =
            dispatched c @ [OnEnd event (mouseEventBuffer c @ [event])]) \<and>
       (state (dispatch now i c) = ABORTED \<longleftrightarrow>
          (\<exists>event. i = Keydown event \<and> suppressionKeyPress c event) \<or>
          (\<exists>n. i = TimerFires n \<and> due now n c))) \<and>
    (state c = ABORTED \<longrightarrow>
       (state (dispatch now i c) = PASSIVE \<longleftrightarrow>
          (\<exists>event. i = Pointerup event \<and> qualifyingRelease c event) \<or>
          i = CallCancel \<or> i = CallDisable) \<and>
       (state (dispatch now i c) = PENDING \<longleftrightarrow>
          enabled c \<and> (\<exists>event. i = Pointerdown event \<and> matchingPress c event)) \<and>
       (state (dispatch now i c) \<noteq> PASSIVE \<and> state (dispatch now i c) \<noteq> PENDING \<longrightarrow>
          state (dispatch now i c) = ABORTED \<and>
          mouseEventBuffer (dispatch now i c) \<noteq> [] \<and> listening (dispatch now i c)))"
proof (intro conjI impI)
  assume p: "state c = PASSIVE"
  then have nl: "\<not> listening c" and nt: "timers c = []" using wf by (simp_all add: wellFormed_def)
  show "state (dispatch now i c) = PENDING \<longleftrightarrow>
          enabled c \<and> (\<exists>event. i = Pointerdown event \<and> matchingPress c event)"
    using p nl nt by (cases i) (simp_all add: state_dispatch due_def del: dispatch.simps)
  show "state (dispatch now i c) \<noteq> PENDING \<Longrightarrow> state (dispatch now i c) = PASSIVE"
    using p nl nt by (cases i) (simp_all add: state_dispatch due_def del: dispatch.simps split: if_splits)
next
  assume p: "state c = PENDING"
  then have l: "listening c" and b: "mouseEventBuffer c \<noteq> []"
    using wf by (simp_all add: wellFormed_def)
  show "state (dispatch now i c) = ACTIVE \<longleftrightarrow>
          (\<exists>event. i = Pointermove event \<and> isTrusted event \<and> buttons event = mouseButton c \<and>
             getDistance (clientX (hd (mouseEventBuffer c))) (clientY (hd (mouseEventBuffer c)))
               (clientX event) (clientY event) > distanceThreshold c)"
    using p l b by (cases i) (simp_all add: state_dispatch del: dispatch.simps)
next
  assume a: "state c = ACTIVE"
  then have l: "listening c" using wf by (simp add: wellFormed_def)
  show "\<forall>event. i = Pointerup event \<and> qualifyingRelease c event \<longrightarrow>
          state (dispatch now i c) = PASSIVE \<and>
          dispatched (dispatch now i c) =
            dispatched c @ [OnEnd event (mouseEventBuffer c @ [event])]"
    using a l
    by (auto simp add: handleMouseup_def qualifyingRelease_def terminate_def reset_def
          clearTimeout_def Let_def)
  show "state (dispatch now i c) = ABORTED \<longleftrightarrow>
          (\<exists>event. i = Keydown event \<and> suppressionKeyPress c event) \<or>
          (\<exists>n. i = TimerFires n \<and> due now n c)"
    using a l by (cases i) (simp_all add: state_dispatch del: dispatch.simps)
next
  assume a: "state c = ABORTED"
  then have l: "listening c" using wf by (simp add: wellFormed_def)
  show "state (dispatch now i c) = PASSIVE \<longleftrightarrow>
          (\<exists>event. i = Pointerup event \<and> qualifyingRelease c event) \<or>
          i = CallCancel \<or> i = CallDisable"
    using a l by (cases i) (simp_all add: state_dispatch del: dispatch.simps)
  show "state (dispatch now i c) = PENDING \<longleftrightarrow>
          enabled c \<and> (\<exists>event. i = Pointerdown event \<and> matchingPress c event)"
    using a l by (cases i) (simp_all add: state_dispatch del: dispatch.simps)
  have stay: "state (dispatch now i c) = ABORTED"
    if "state (dispatch now i c) \<noteq> PASSIVE \<and> state (dispatch now i c) \<noteq> PENDING"
    using that a by (cases i) (simp_all add: state_dispatch del: dispatch.simps split: if_splits)
  have wf': "wellFormed (dispatch now i c)" using wf by (rule wellFormed_dispatch)
  show "state (dispatch now i c) = ABORTED"
    if "state (dispatch now i c) \<noteq> PASSIVE \<and> state (dispatch now i c) \<noteq> PENDING"
    using that by (rule stay)
  show "mouseEventBuffer (dispatch now i c) \<noteq> []"
    if "state (dispatch now i c) \<noteq> PASSIVE \<and> state (dispatch now i c) \<noteq> PENDING"
    using stay [OF that] wf' by (simp add: wellFormed_def)
  show "listening (dispatch now i c)"
    if "state (dispatch now i c) \<noteq> PASSIVE \<and> state (dispatch now i c) \<noteq> PENDING"
    using stay [OF that] wf' by (simp add: wellFormed_def)
qed

theorem transition_table_witness:
  "wellFormed ready \<and> state ready = PASSIVE \<and>
   state (dispatch 0 (Pointerdown (sample 0 0 0)) ready) = PENDING \<and>
   wellFormed pressed \<and> state pressed = PENDING \<and>
   state (dispatch 10 (Pointermove (sample 10 50 0)) pressed) = ACTIVE \<and>
   wellFormed stroke \<and> state stroke = ACTIVE \<and>
   state (dispatch 20 (Keydown (keyPress 20 ''Shift'')) stroke) = ABORTED \<and>
   state (dispatch 20 (Pointerup (sample 20 50 0)) stroke) = PASSIVE \<and>
   wellFormed abortedStroke \<and> state abortedStroke = ABORTED \<and>
   state (dispatch 30 (Pointerup (sample 30 50 0)) abortedStroke) = PASSIVE \<and>
   state (dispatch 30 (Keydown (keyPress 30 ''Shift'')) abortedStroke) = ABORTED"
proof -
  have w1: "wellFormed ready" by (simp add: ready_eq wellFormed_def)
  have w2: "wellFormed pressed" by (simp add: pressed_eq wellFormed_def)
  have w3: "wellFormed stroke" by (simp add: stroke_eq wellFormed_def)
  have w4: "wellFormed abortedStroke" by (simp add: abortedStroke_eq wellFormed_def)
  have s1: "state ready = PASSIVE" and e1: "enabled ready" by (simp_all add: ready_eq)
  have s2: "state pressed = PENDING" by (simp add: pressed_eq)
  have s3: "state stroke = ACTIVE" by (simp add: stroke_eq)
  have s4: "state abortedStroke = ABORTED" by (simp add: abortedStroke_eq)
  have m1: "matchingPress ready (sample 0 0 0)"
    by (simp add: matchingPress_def ready_eq sample_def)
  have m2: "isTrusted (sample 10 50 0) \<and> buttons (sample 10 50 0) = mouseButton pressed \<and>
      getDistance (clientX (hd (mouseEventBuffer pressed))) (clientY (hd (mouseEventBuffer pressed)))
        (clientX (sample 10 50 0)) (clientY (sample 10 50 0)) > distanceThreshold pressed"
    by (simp add: pressed_eq sample_def getDistance_def hypot_gt_iff)
  have m3: "suppressionKeyPress stroke (keyPress 20 ''Shift'')"
    by (simp add: suppressionKeyPress_def stroke_eq keyPress_def pressedKey_def)
  have m4: "qualifyingRelease stroke (sample 20 50 0)"
    by (simp add: qualifyingRelease_def stroke_eq sample_def)
  have m5: "qualifyingRelease abortedStroke (sample 30 50 0)"
    by (simp add: qualifyingRelease_def abortedStroke_eq sample_def)
  have p1: "state (dispatch 0 (Pointerdown (sample 0 0 0)) ready) = PENDING"
    using transition_table [OF w1, of 0 "Pointerdown (sample 0 0 0)"] s1 e1 m1 by blast
  have p2: "state (dispatch 10 (Pointermove (sample 10 50 0)) pressed) = ACTIVE"
    using transition_table [OF w2, of 10 "Pointermove (sample 10 50 0)"] s2 m2 by blast
  have p3: "state (dispatch 20 (Keydown (keyPress 20 ''Shift'')) stroke) = ABORTED"
    using transition_table [OF w3, of 20 "Keydown (keyPress 20 ''Shift'')"] s3 m3 by blast
  have p4: "state (dispatch 20 (Pointerup (sample 20 50 0)) stroke) = PASSIVE"
    using transition_table [OF w3, of 20 "Pointerup (sample 20 50 0)"] s3 m4 by blast
  have p5: "state (dispatch 30 (Pointerup (sample 30 50 0)) abortedStroke) = PASSIVE"
    using transition_table [OF w4, of 30 "Pointerup (sample 30 50 0)"] s4 m5 by blast
  have "state (dispatch 30 (Keydown (keyPress 30 ''Shift'')) abortedStroke) \<noteq> PASSIVE \<and>
        state (dispatch 30 (Keydown (keyPress 30 ''Shift'')) abortedStroke) \<noteq> PENDING"
    using transition_table [OF w4, of 30 "Keydown (keyPress 30 ''Shift'')"] s4 by blast
  then have p6: "state (dispatch 30 (Keydown (keyPress 30 ''Shift'')) abortedStroke) = ABORTED"
    using transition_table [OF w4, of 30 "Keydown (keyPress 30 ''Shift'')"] s4 by blast
  show ?thesis using w1 w2 w3 w4 s1 s2 s3 s4 p1 p2 p3 p4 p5 p6 by blast
qed

section \<open>MouseGestureController: the timeout\<close>

text \<open>
  Claim C7: with the timeout enabled, every update in the \<open>ACTIVE\<close> state (a trusted
  move with the trigger button held) cancels the pending timer, if any, and schedules a
  new one for the full duration: afterwards the one pending timer is the new one, due
  \<open>timeoutDuration\<close> after this update, and the machine is aborted by a timer exactly
  when that timer fires at or after that time.  \<open>reset\<close> leaves no timer pending and
  clears \<open>timeoutId\<close>.
\<close>

theorem timeout_rearmed:
  assumes wf: "wellFormed c"
  shows
   "(state c = ACTIVE \<and> timeoutActive c \<and> isTrusted event \<and> buttons event = mouseButton c \<longrightarrow>
       timers (dispatch now (Pointermove event) c) = [(nextTimer c, now + timeoutDuration c)] \<and>
       timeoutId (dispatch now (Pointermove event) c) = Some (nextTimer c) \<and>
       (\<forall>t \<in> set (timers c). fst t \<noteq> nextTimer c) \<and>
       state (dispatch now (Pointermove event) c) = ACTIVE \<and>
       (\<forall>later n. state (dispatch later (TimerFires n) (dispatch now (Pointermove event) c))
                    = ABORTED \<longleftrightarrow>
                  n = nextTimer c \<and> now + timeoutDuration c \<le> later)) \<and>
    timers (reset c) = [] \<and> timeoutId (reset c) = None"
proof (intro conjI impI)
  assume a: "state c = ACTIVE \<and> timeoutActive c \<and> isTrusted event \<and> buttons event = mouseButton c"
  then have l: "listening c" using wf by (simp add: wellFormed_def)
  have eq: "dispatch now (Pointermove event) c =
        c \<lparr> mouseEventBuffer := mouseEventBuffer c @ [event],
            dispatched := dispatched c @ [OnUpdate event (mouseEventBuffer c @ [event])],
            timers := [(nextTimer c, now + timeoutDuration c)],
            nextTimer := nextTimer c + 1,
            timeoutId := Some (nextTimer c) \<rparr>"
    using a l rearm_timers [OF wf] by (simp add: handleMousemove_def update_ACTIVE)
  show "timers (dispatch now (Pointermove event) c) = [(nextTimer c, now + timeoutDuration c)]"
    unfolding eq by simp
  show "timeoutId (dispatch now (Pointermove event) c) = Some (nextTimer c)"
    unfolding eq by simp
  show "\<forall>t \<in> set (timers c). fst t \<noteq> nextTimer c"
    using wf by (auto simp add: wellFormed_def)
  show "state (dispatch now (Pointermove event) c) = ACTIVE"
    using a unfolding eq by simp
  show "\<forall>later n. state (dispatch later (TimerFires n) (dispatch now (Pointermove event) c))
                    = ABORTED \<longleftrightarrow>
                  n = nextTimer c \<and> now + timeoutDuration c \<le> later"
    using a unfolding eq by (auto simp add: due_def)
next
  show "timers (reset c) = []" using wf by (rule reset_fields)
  show "timeoutId (reset c) = None" using wf by (rule reset_fields)
qed

theorem timeout_rearmed_witness:
  "wellFormed timedStroke \<and> state timedStroke = ACTIVE \<and> timeoutActive timedStroke \<and>
   timeoutDuration timedStroke = 1000 \<and> timers timedStroke = [(1, 1020)] \<and>
   timers (dispatch 500 (Pointermove (sample 500 70 0)) timedStroke) = [(2, 1500)] \<and>
   state (dispatch 1020 (TimerFires 1)
            (dispatch 500 (Pointermove (sample 500 70 0)) timedStroke)) \<noteq> ABORTED \<and>
   state (dispatch 1499 (TimerFires 2)
            (dispatch 500 (Pointermove (sample 500 70 0)) timedStroke)) \<noteq> ABORTED \<and>
   state (dispatch 1500 (TimerFires 2)
            (dispatch 500 (Pointermove (sample 500 70 0)) timedStroke)) = ABORTED \<and>
   timers (reset timedStroke) = []"
proof -
  have w: "wellFormed timedStroke" by (simp add: timedStroke_eq wellFormed_def)
  have f: "state timedStroke = ACTIVE \<and> timeoutActive timedStroke \<and>
           isTrusted (sample 500 70 0) \<and> buttons (sample 500 70 0) = mouseButton timedStroke"
    by (simp add: timedStroke_eq sample_def)
  have v: "timeoutDuration timedStroke = 1000 \<and> timers timedStroke = [(1, 1020)] \<and>
           nextTimer timedStroke = 2"
    by (simp add: timedStroke_eq)
  note t = timeout_rearmed [OF w, of "sample 500 70 0" 500]
  have a: "timers (dispatch 500 (Pointermove (sample 500 70 0)) timedStroke) = [(2, 1500)]"
    using t f v by simp
  have b: "\<forall>later n. state (dispatch later (TimerFires n)
              (dispatch 500 (Pointermove (sample 500 70 0)) timedStroke)) = ABORTED \<longleftrightarrow>
            n = 2 \<and> 1500 \<le> later"
    using t f v by simp
  have r: "timers (reset timedStroke) = []" using t by simp
  show ?thesis using w f v a b r by simp
qed

section \<open>RockerGestureController\<close>











section \<open>WheelGestureController\<close>

text \<open>
  Claim C3: with sensitivity 5 and an empty accumulator, two trusted wheel samples with
  the trigger button held and deltas \<open>+3\<close> and \<open>+4\<close> dispatch nothing at the first
  sample and exactly one \<open>wheeldown\<close> at the second, which leaves the accumulator at
  \<open>0\<close>; the deltas \<open>+3\<close> and \<open>-1\<close> dispatch nothing and leave the accumulator at \<open>-1\<close>.
  In general a sample whose sign differs from that of the accumulator is handled as if
  the accumulator were \<open>0\<close>: the reset comes first, then the addition, then the
  comparison with the sensitivity.
\<close>

theorem wheel_accumulator:
  assumes "wheelSensitivity w = 5" and "accumulatedDeltaY w = 0"
    and "isTrusted e1" and "buttons e1 = mouseButton1 w" and "deltaY e1 = 3"
    and "isTrusted e2" and "buttons e2 = mouseButton1 w" and "deltaY e2 = 4"
    and "isTrusted e3" and "buttons e3 = mouseButton1 w" and "deltaY e3 = - 1"
  shows
    "fst (snd (handleWheel e1 w)) = [] \<and>
     accumulatedDeltaY (fst (handleWheel e1 w)) = 3 \<and>
     fst (snd (handleWheel e2 (fst (handleWheel e1 w)))) = [wheeldown] \<and>
     accumulatedDeltaY (fst (handleWheel e2 (fst (handleWheel e1 w)))) = 0 \<and>
     fst (snd (handleWheel e3 (fst (handleWheel e1 w)))) = [] \<and>
     accumulatedDeltaY (fst (handleWheel e3 (fst (handleWheel e1 w)))) = - 1 \<and>
     (isTrusted e \<and> buttons e = mouseButton1 w' \<and> deltaY e \<noteq> 0 \<and>
      (accumulatedDeltaY w' < 0) \<noteq> (deltaY e < 0) \<longrightarrow>
        accumulatedDeltaY (fst (handleWheel e w')) =
          (if \<bar>deltaY e\<bar> \<ge> wheelSensitivity w' then 0 else deltaY e) \<and>
        fst (snd (handleWheel e w')) =
          (if \<bar>deltaY e\<bar> \<ge> wheelSensitivity w'
           then (if deltaY e < 0 then [wheelup] else [wheeldown]) else []))"
proof (intro conjI impI)
  show "fst (snd (handleWheel e1 w)) = []"
    using assms by (simp add: handleWheel_def Let_def)
  show "accumulatedDeltaY (fst (handleWheel e1 w)) = 3"
    using assms by (simp add: handleWheel_def Let_def)
  show "fst (snd (handleWheel e2 (fst (handleWheel e1 w)))) = [wheeldown]"
    using assms by (simp add: handleWheel_def Let_def)
  show "accumulatedDeltaY (fst (handleWheel e2 (fst (handleWheel e1 w)))) = 0"
    using assms by (simp add: handleWheel_def Let_def)
  show "fst (snd (handleWheel e3 (fst (handleWheel e1 w)))) = []"
    using assms by (simp add: handleWheel_def Let_def)
  show "accumulatedDeltaY (fst (handleWheel e3 (fst (handleWheel e1 w)))) = - 1"
    using assms by (simp add: handleWheel_def Let_def)
next
  assume f: "isTrusted e \<and> buttons e = mouseButton1 w' \<and> deltaY e \<noteq> 0 \<and>
      (accumulatedDeltaY w' < 0) \<noteq> (deltaY e < 0)"
  then show "accumulatedDeltaY (fst (handleWheel e w')) =
          (if \<bar>deltaY e\<bar> \<ge> wheelSensitivity w' then 0 else deltaY e)"
    by (simp add: handleWheel_def Let_def)
  from f show "fst (snd (handleWheel e w')) =
          (if \<bar>deltaY e\<bar> \<ge> wheelSensitivity w'
           then (if deltaY e < 0 then [wheelup] else [wheeldown]) else [])"
    by (auto simp add: handleWheel_def Let_def)
qed

theorem wheel_accumulator_witness:
  "wheelSensitivity (WheelGestureController \<lparr> wheelSensitivity := 5 \<rparr>) = 5 \<and>
   accumulatedDeltaY (WheelGestureController \<lparr> wheelSensitivity := 5 \<rparr>) = 0 \<and>
   fst (snd (handleWheel (wheelSample 1 4)
       (fst (handleWheel (wheelSample 1 3) (WheelGestureController \<lparr> wheelSensitivity := 5 \<rparr>)))))
     = [wheeldown] \<and>
   accumulatedDeltaY (fst (handleWheel (wheelSample 1 4)
       (fst (handleWheel (wheelSample 1 3) (WheelGestureController \<lparr> wheelSensitivity := 5 \<rparr>)))))
     = 0 \<and>
   accumulatedDeltaY (fst (handleWheel (wheelSample 1 (- 1))
       (fst (handleWheel (wheelSample 1 3) (WheelGestureController \<lparr> wheelSensitivity := 5 \<rparr>)))))
     = - 1"
  using wheel_accumulator [of "WheelGestureController \<lparr> wheelSensitivity := 5 \<rparr>"
      "wheelSample 1 3" "wheelSample 1 4" "wheelSample 1 (- 1)"]
  by (simp add: WheelGestureController_def wheelSample_def)

section \<open>PatternConstructor\<close>

lemma hypot_le_iff: "hypot a b \<le> t \<longleftrightarrow> 0 \<le> t \<and> a * a + b * b \<le> t * t"
  using hypot_gt_iff [of t a b] by auto

lemma straightStroke_eq:
  "straightStroke = \<lparr> differenceThreshold = 0.12, pcDistanceThreshold = 10,
       lastExtractedPointX = Some 0, lastExtractedPointY = Some 0,
       previousPointX = Some 20, previousPointY = Some 0,
       lastPointX = Some 20, lastPointY = Some 0,
       previousVectoX = Some 20, previousVectoY = Some 0,
       extracedVectors = [] \<rparr>"
  by (simp add: straightStroke_def addPoint_def PatternConstructor_def hypot_gt_iff)

text \<open>
  Claim C1, as stated, fails: a point that passes the distance threshold but not the
  angular one, once a reference direction exists, is said not to return \<open>1\<close> or \<open>2\<close>.
  After the points \<open>(0, 0)\<close> and \<open>(20, 0)\<close> the point \<open>(40, 0)\<close> continues in the same
  direction; no segment is extracted and the reference direction stays, and \<open>addPoint\<close>
  returns \<open>1\<close>.
\<close>

theorem addPoint_straight_line_returns_one:
  "previousVectoX straightStroke \<noteq> None \<and> previousVectoY straightStroke \<noteq> None \<and>
   hypot (40 - num (previousPointX straightStroke)) (0 - num (previousPointY straightStroke))
     > pcDistanceThreshold straightStroke \<and>
   \<not> \<bar>vectorDirectionDifference (num (previousVectoX straightStroke))
        (num (previousVectoY straightStroke))
        (40 - num (previousPointX straightStroke)) (0 - num (previousPointY straightStroke))\<bar>
      > differenceThreshold straightStroke \<and>
   previousVectoX (snd (addPoint straightStroke 40 0)) = previousVectoX straightStroke \<and>
   previousVectoY (snd (addPoint straightStroke 40 0)) = previousVectoY straightStroke \<and>
   extracedVectors (snd (addPoint straightStroke 40 0)) = extracedVectors straightStroke \<and>
   fst (addPoint straightStroke 40 0) = 1"
  by (simp add: straightStroke_eq addPoint_def hypot_gt_iff vectorDirectionDifference_same)

text \<open>
  Claim C1, amended: for every call of \<open>addPoint\<close> the change indicator is \<open>0\<close>, \<open>1\<close>
  or \<open>2\<close>.  It is \<open>0\<close> exactly when the point is the first one or its distance from the
  previous-point anchor does not exceed the distance threshold; it is \<open>2\<close> exactly when
  a new segment is extracted, the vector from the last extracted point to the anchor; it
  is \<open>1\<close> exactly when the distance threshold is passed and no segment is extracted.  In
  particular, once a reference direction exists, a displacement that passes the distance
  threshold but not the angular one returns \<open>1\<close> and leaves the reference direction as
  it is.
\<close>

theorem addPoint_change_indicator:
  assumes "addPoint this x y = (c, this')"
  shows "(c = 0 \<or> c = 1 \<or> c = 2) \<and>
    (c = 0 \<longleftrightarrow> previousPointX this = None \<or> previousPointY this = None \<or>
       hypot (x - num (previousPointX this)) (y - num (previousPointY this))
         \<le> pcDistanceThreshold this) \<and>
    (c = 2 \<longleftrightarrow> extracedVectors this' = extracedVectors this @
       [(num (previousPointX this) - num (lastExtractedPointX this),
         num (previousPointY this) - num (lastExtractedPointY this))]) \<and>
    (c \<noteq> 2 \<longleftrightarrow> extracedVectors this' = extracedVectors this) \<and>
    (c = 1 \<longleftrightarrow> previousPointX this \<noteq> None \<and> previousPointY this \<noteq> None \<and>
       hypot (x - num (previousPointX this)) (y - num (previousPointY this))
         > pcDistanceThreshold this \<and>
       extracedVectors this' = extracedVectors this) \<and>
    (previousPointX this \<noteq> None \<and> previousPointY this \<noteq> None \<and>
     previousVectoX this \<noteq> None \<and> previousVectoY this \<noteq> None \<and>
     hypot (x - num (previousPointX this)) (y - num (previousPointY this))
         > pcDistanceThreshold this \<and>
     \<bar>vectorDirectionDifference (num (previousVectoX this)) (num (previousVectoY this))
        (x - num (previousPointX this)) (y - num (previousPointY this))\<bar>
       \<le> differenceThreshold this
     \<longrightarrow> c = 1 \<and> previousVectoX this' = previousVectoX this \<and>
         previousVectoY this' = previousVectoY this)"
  using assms
  by (auto simp add: addPoint_def Let_def split: if_splits)

theorem addPoint_change_indicator_witness:
  "addPoint straightStroke 20 20 =
     (fst (addPoint straightStroke 20 20), snd (addPoint straightStroke 20 20)) \<and>
   fst (addPoint straightStroke 20 20) = 2 \<and>
   extracedVectors (snd (addPoint straightStroke 20 20)) = [(20, 0)] \<and>
   fst (addPoint straightStroke 45 0) = 1 \<and>
   fst (addPoint straightStroke 25 0) = 0"
proof -
  have h1: "addPoint straightStroke 20 20 =
     (fst (addPoint straightStroke 20 20), snd (addPoint straightStroke 20 20))" by simp
  have h2: "addPoint straightStroke 45 0 =
     (fst (addPoint straightStroke 45 0), snd (addPoint straightStroke 45 0))" by simp
  have h3: "addPoint straightStroke 25 0 =
     (fst (addPoint straightStroke 25 0), snd (addPoint straightStroke 25 0))" by simp
  have e: "extracedVectors (snd (addPoint straightStroke 20 20)) = [(20, 0)]"
    by (simp add: straightStroke_eq addPoint_def hypot_gt_iff vectorDirectionDifference_quarter)
  have a: "fst (addPoint straightStroke 20 20) = 2"
    using addPoint_change_indicator [OF h1] e by (simp add: straightStroke_eq)
  have f: "extracedVectors (snd (addPoint straightStroke 45 0)) = extracedVectors straightStroke"
    by (simp add: straightStroke_eq addPoint_def hypot_gt_iff vectorDirectionDifference_parallel)
  have b: "fst (addPoint straightStroke 45 0) = 1"
    using addPoint_change_indicator [OF h2] f by (simp add: straightStroke_eq hypot_gt_iff)
  have c: "fst (addPoint straightStroke 25 0) = 0"
    using addPoint_change_indicator [OF h3] by (simp add: straightStroke_eq hypot_le_iff)
  show ?thesis using h1 e a b c by simp
qed

lemma addPoint_first:
  "previousPointX this = None \<or> previousPointY this = None \<Longrightarrow>
   addPoint this x y =
     (0, this \<lparr> lastExtractedPointX := Some x, lastExtractedPointY := Some y,
                previousPointX := Some x, previousPointY := Some y,
                lastPointX := Some x, lastPointY := Some y \<rparr>)"
  by (simp add: addPoint_def)

lemma addPoint_near:
  "previousPointX this = Some px \<Longrightarrow> previousPointY this = Some py \<Longrightarrow>
   hypot (x - px) (y - py) \<le> pcDistanceThreshold this \<Longrightarrow>
   addPoint this x y = (0, this \<lparr> lastPointX := Some x, lastPointY := Some y \<rparr>)"
  by (simp add: addPoint_def Let_def)

lemma addPoint_far:
  "previousPointX this = Some px \<Longrightarrow> previousPointY this = Some py \<Longrightarrow>
   hypot (x - px) (y - py) > pcDistanceThreshold this \<Longrightarrow>
   previousPointX (snd (addPoint this x y)) = Some x \<and>
   previousPointY (snd (addPoint this x y)) = Some y \<and>
   lastPointX (snd (addPoint this x y)) = Some x \<and>
   lastPointY (snd (addPoint this x y)) = Some y \<and>
   pcDistanceThreshold (snd (addPoint this x y)) = pcDistanceThreshold this \<and>
   (lastExtractedPointX this \<noteq> None \<longrightarrow> lastExtractedPointX (snd (addPoint this x y)) \<noteq> None) \<and>
   (lastExtractedPointY this \<noteq> None \<longrightarrow> lastExtractedPointY (snd (addPoint this x y)) \<noteq> None) \<and>
   length (extracedVectors (snd (addPoint this x y))) =
     (if fst (addPoint this x y) = 2 then length (extracedVectors this) + 1
      else length (extracedVectors this))"
  by (simp add: addPoint_def Let_def)

lemma addPoint_far_extract:
  "previousPointX this = Some px \<Longrightarrow> previousPointY this = Some py \<Longrightarrow>
   hypot (x - px) (y - py) > pcDistanceThreshold this \<Longrightarrow>
   fst (addPoint this x y) \<noteq> 0 \<and>
   (if fst (addPoint this x y) = 2 then
      extracedVectors (snd (addPoint this x y)) = extracedVectors this @
        [(px - num (lastExtractedPointX this), py - num (lastExtractedPointY this))] \<and>
      lastExtractedPointX (snd (addPoint this x y)) = Some px \<and>
      lastExtractedPointY (snd (addPoint this x y)) = Some py
    else
      extracedVectors (snd (addPoint this x y)) = extracedVectors this \<and>
      lastExtractedPointX (snd (addPoint this x y)) = lastExtractedPointX this \<and>
      lastExtractedPointY (snd (addPoint this x y)) = lastExtractedPointY this)"
  by (simp add: addPoint_def Let_def)

lemma pcInv_init:
  "pcInv \<lparr> pcObject = PatternConstructor a b, added = [], confirmed = 0,
           anchor = None, extractedFrom = None, segments = [] \<rparr>"
  by (simp add: pcInv_def PatternConstructor_def)

lemma pcInv_clear: "pcInv (pcCall R Clear)"
  by (simp add: pcInv_def clear_def)

lemma pcInv_addPoint:
  assumes "pcInv R"
  shows "pcInv (pcCall R (AddPoint x y))"
proof (cases "added R = []")
  case True
  then have "previousPointX (pcObject R) = None" and "extracedVectors (pcObject R) = []"
    and "segments R = []" and "confirmed R = 0"
    using assms by (auto simp add: pcInv_def)
  then show ?thesis
    using True by (simp add: addPoint_first pcInv_def)
next
  case False
  then obtain px py ex ey where a: "anchor R = Some (px, py)"
    and f: "extractedFrom R = Some (ex, ey)"
    using assms by (auto simp add: pcInv_def)
  have p: "previousPointX (pcObject R) = Some px" "previousPointY (pcObject R) = Some py"
    and e: "lastExtractedPointX (pcObject R) = Some ex" "lastExtractedPointY (pcObject R) = Some ey"
    and v: "extracedVectors (pcObject R) = segments R" "length (segments R) = confirmed R"
    and s: "ex = fst (hd (added R)) + sum_list (map fst (segments R))"
           "ey = snd (hd (added R)) + sum_list (map snd (segments R))"
    using assms False a f by (simp_all add: pcInv_def)
  show ?thesis
  proof (cases "hypot (x - px) (y - py) \<le> pcDistanceThreshold (pcObject R)")
    case True
    then show ?thesis
      using False a f p e v s by (simp add: addPoint_near [OF p] pcInv_def)
  next
    case far: False
    then have "hypot (x - px) (y - py) > pcDistanceThreshold (pcObject R)" by simp
    from addPoint_far [OF p this] addPoint_far_extract [OF p this] show ?thesis
      using False a f e v s by (simp add: pcInv_def split: if_splits)
  qed
qed

lemma pcInv_run: "pcInv (pcRun a b calls)"
  unfolding pcRun_def
proof (induction calls rule: rev_induct)
  case Nil
  show ?case by (simp add: pcInv_init)
next
  case (snoc c calls)
  show ?case
  proof (cases c)
    case Clear
    then show ?thesis by (simp add: pcInv_clear del: pcCall.simps)
  next
    case (AddPoint x y)
    then show ?thesis using pcInv_addPoint [OF snoc] by (simp del: pcCall.simps)
  qed
qed

lemma pcRun_snoc: "pcRun a b (calls @ [c]) = pcCall (pcRun a b calls) c"
  by (simp add: pcRun_def)

lemma getPattern_chain:
  assumes "pcInv R" and "added R \<noteq> []"
  shows "\<exists>e. extractedFrom R = Some e \<and>
     getPattern (pcObject R) =
       segments R @ [(fst (last (added R)) - fst e, snd (last (added R)) - snd e)] \<and>
     sum_list (map fst (getPattern (pcObject R))) = fst (last (added R)) - fst (hd (added R)) \<and>
     sum_list (map snd (getPattern (pcObject R))) = snd (last (added R)) - snd (hd (added R))"
  using assms by (auto simp add: pcInv_def getPattern_def)

text \<open>
  Claim C4: for every sequence of calls on a new \<open>PatternConstructor\<close>, the list
  returned by \<open>getPattern\<close> is empty exactly when no point has been added since
  construction or the last \<open>clear\<close>.  Otherwise it consists of the extracted segments,
  as many as calls of \<open>addPoint\<close> returned \<open>2\<close> since then, followed by exactly one more
  vector, from the last extracted point to the most recent point.  The extracted segments and
  the last extracted point are those of the record of the calls: the last extracted point is
  the first point added, and after that the anchor at the time of the last call that returned
  \<open>2\<close>; each extracted segment leads from the last extracted point to the anchor as they were
  when a call returned \<open>2\<close>.  So the vectors of the pattern add up to the vector from the
  first point to the most recent point.
\<close>

theorem getPattern_length:
  "(getPattern (pcObject (pcRun a b calls)) = [] \<longleftrightarrow> added (pcRun a b calls) = []) \<and>
   extracedVectors (pcObject (pcRun a b calls)) = segments (pcRun a b calls) \<and>
   length (extracedVectors (pcObject (pcRun a b calls))) = confirmed (pcRun a b calls) \<and>
   lastExtractedPointX (pcObject (pcRun a b calls)) =
     map_option fst (extractedFrom (pcRun a b calls)) \<and>
   lastExtractedPointY (pcObject (pcRun a b calls)) =
     map_option snd (extractedFrom (pcRun a b calls)) \<and>
   previousPointX (pcObject (pcRun a b calls)) = map_option fst (anchor (pcRun a b calls)) \<and>
   previousPointY (pcObject (pcRun a b calls)) = map_option snd (anchor (pcRun a b calls)) \<and>
   (added (pcRun a b calls) \<noteq> [] \<longrightarrow>
      length (getPattern (pcObject (pcRun a b calls))) = confirmed (pcRun a b calls) + 1 \<and>
      (\<exists>e. extractedFrom (pcRun a b calls) = Some e \<and>
         getPattern (pcObject (pcRun a b calls)) =
           segments (pcRun a b calls) @
             [(fst (last (added (pcRun a b calls))) - fst e,
               snd (last (added (pcRun a b calls))) - snd e)]) \<and>
      sum_list (map fst (getPattern (pcObject (pcRun a b calls)))) =
        fst (last (added (pcRun a b calls))) - fst (hd (added (pcRun a b calls))) \<and>
      sum_list (map snd (getPattern (pcObject (pcRun a b calls)))) =
        snd (last (added (pcRun a b calls))) - snd (hd (added (pcRun a b calls))))"
proof -
  let ?R = "pcRun a b calls"
  have inv: "pcInv ?R" by (rule pcInv_run)
  have 1: "getPattern (pcObject ?R) = [] \<longleftrightarrow> added ?R = []"
    using inv by (auto simp add: pcInv_def getPattern_def split: if_splits)
  have 2: "extracedVectors (pcObject ?R) = segments ?R"
    and 3: "length (extracedVectors (pcObject ?R)) = confirmed ?R"
    using inv by (simp_all add: pcInv_def)
  have 4: "lastExtractedPointX (pcObject ?R) = map_option fst (extractedFrom ?R)"
    and 5: "lastExtractedPointY (pcObject ?R) = map_option snd (extractedFrom ?R)"
    and 6: "previousPointX (pcObject ?R) = map_option fst (anchor ?R)"
    and 7: "previousPointY (pcObject ?R) = map_option snd (anchor ?R)"
    using inv by (simp_all add: pcInv_def split: if_splits)
  have 8: "length (getPattern (pcObject ?R)) = confirmed ?R + 1" if "added ?R \<noteq> []"
    using inv that by (auto simp add: pcInv_def getPattern_def)
  show ?thesis
    using 1 2 3 4 5 6 7 8 getPattern_chain [OF inv] by blast
qed


theorem getPattern_length_witness:
  "added (pcRun 0.12 10 [AddPoint 0 0, AddPoint 20 0, AddPoint 20 20]) \<noteq> [] \<and>
   confirmed (pcRun 0.12 10 [AddPoint 0 0, AddPoint 20 0, AddPoint 20 20]) = 1 \<and>
   extractedFrom (pcRun 0.12 10 [AddPoint 0 0, AddPoint 20 0, AddPoint 20 20]) = Some (20, 0) \<and>
   extracedVectors (pcObject (pcRun 0.12 10 [AddPoint 0 0, AddPoint 20 0, AddPoint 20 20])) =
     [(20, 0)] \<and>
   lastExtractedPointX (pcObject (pcRun 0.12 10 [AddPoint 0 0, AddPoint 20 0, AddPoint 20 20])) =
     Some 20 \<and>
   lastExtractedPointY (pcObject (pcRun 0.12 10 [AddPoint 0 0, AddPoint 20 0, AddPoint 20 20])) =
     Some 0 \<and>
   getPattern (pcObject (pcRun 0.12 10 [AddPoint 0 0, AddPoint 20 0, AddPoint 20 20])) =
     [(20, 0), (0, 20)] \<and>
   added (pcRun 0.12 10 [AddPoint 0 0, Clear]) = [] \<and>
   getPattern (pcObject (pcRun 0.12 10 [AddPoint 0 0, Clear])) = []"
proof -
  let ?R = "pcRun 0.12 10 [AddPoint 0 0, AddPoint 20 0, AddPoint 20 20]"
  have s: "pcRun 0.12 10 [AddPoint 0 0, AddPoint 20 0] =
             \<lparr> pcObject = straightStroke, added = [(0, 0), (20, 0)], confirmed = 0,
               anchor = Some (20, 0), extractedFrom = Some (0, 0), segments = [] \<rparr>"
    by (simp add: pcRun_def straightStroke_def addPoint_def PatternConstructor_def hypot_gt_iff)
  have c: "fst (addPoint straightStroke 20 20) = 2"
    by (simp add: straightStroke_eq addPoint_def hypot_gt_iff vectorDirectionDifference_quarter)
  have "?R = pcCall (pcRun 0.12 10 [AddPoint 0 0, AddPoint 20 0]) (AddPoint 20 20)"
    by (simp add: pcRun_def)
  also have "\<dots> =
      pcCall \<lparr> pcObject = straightStroke, added = [(0, 0), (20, 0)], confirmed = 0,
               anchor = Some (20, 0), extractedFrom = Some (0, 0), segments = [] \<rparr>
        (AddPoint 20 20)"
    by (simp only: s)
  finally have eq: "?R =
      pcCall \<lparr> pcObject = straightStroke, added = [(0, 0), (20, 0)], confirmed = 0,
               anchor = Some (20, 0), extractedFrom = Some (0, 0), segments = [] \<rparr>
        (AddPoint 20 20)" .
  have r: "added ?R = [(0, 0), (20, 0), (20, 20)]" "confirmed ?R = 1"
    "extractedFrom ?R = Some (20, 0)" "segments ?R = [(20, 0)]"
    unfolding eq using c by simp_all
  have q: "added (pcRun 0.12 10 [AddPoint 0 0, Clear]) = []"
    by (simp add: pcRun_def)
  show ?thesis
    using r q
      getPattern_length [of "0.12" 10 "[AddPoint 0 0, AddPoint 20 0, AddPoint 20 20]"]
      getPattern_length [of "0.12" 10 "[AddPoint 0 0, Clear]"]
    by simp
qed

lemma addPoint_anchor_cases:
  "(previousPointX (snd (addPoint this x y)) = Some x \<and>
    previousPointY (snd (addPoint this x y)) = Some y) \<or>
   (\<exists>px py. previousPointX this = Some px \<and> previousPointY this = Some py \<and>
      hypot (x - px) (y - py) \<le> pcDistanceThreshold this \<and>
      snd (addPoint this x y) = this \<lparr> lastPointX := Some x, lastPointY := Some y \<rparr>)"
proof (cases "previousPointX this = None \<or> previousPointY this = None")
  case True
  then show ?thesis by (simp add: addPoint_first)
next
  case False
  then obtain px py where p: "previousPointX this = Some px" "previousPointY this = Some py"
    by auto
  show ?thesis
  proof (cases "hypot (x - px) (y - py) \<le> pcDistanceThreshold this")
    case True
    then show ?thesis using p by (simp add: addPoint_near [OF p])
  next
    case False
    then have "hypot (x - px) (y - py) > pcDistanceThreshold this" by simp
    from addPoint_far [OF p this] show ?thesis by simp
  qed
qed

lemma addPoint_threshold [simp]:
  "pcDistanceThreshold (snd (addPoint this x y)) = pcDistanceThreshold this"
  by (simp add: addPoint_def Let_def split: prod.splits)

lemma getPattern_lastPoint_idem:
  "lastPointX this = Some x \<Longrightarrow> lastPointY this = Some y \<Longrightarrow>
   getPattern (this \<lparr> lastPointX := Some x, lastPointY := Some y \<rparr>) = getPattern this"
  by (simp add: getPattern_def)

lemma addPoint_lastPoint [simp]:
  "lastPointX (snd (addPoint this x y)) = Some x"
  "lastPointY (snd (addPoint this x y)) = Some y"
  by (simp_all add: addPoint_def Let_def split: prod.splits)

lemma addPoint_twice_near:
  assumes "hypot (x - num (previousPointX (snd (addPoint this x y))))
                 (y - num (previousPointY (snd (addPoint this x y))))
             \<le> pcDistanceThreshold this"
  shows "getPattern (snd (addPoint (snd (addPoint this x y)) x y)) =
         getPattern (snd (addPoint this x y))"
proof -
  let ?s = "snd (addPoint this x y)"
  have "previousPointX ?s \<noteq> None \<and> previousPointY ?s \<noteq> None"
    using addPoint_anchor_cases [of this x y] by auto
  then obtain px py where p: "previousPointX ?s = Some px" "previousPointY ?s = Some py"
    by auto
  have "hypot (x - px) (y - py) \<le> pcDistanceThreshold ?s"
    using assms p by simp
  from addPoint_near [OF p this]
  show ?thesis by (simp add: getPattern_lastPoint_idem)
qed

lemma addPoint_twice_dist:
  assumes "0 \<le> pcDistanceThreshold this"
  shows "hypot (x - num (previousPointX (snd (addPoint this x y))))
               (y - num (previousPointY (snd (addPoint this x y))))
           \<le> pcDistanceThreshold this"
  using addPoint_anchor_cases [of this x y] assms
  by (auto simp add: hypot_def)

text \<open>
  Claim C5: in every state with at least one point added, a point whose distance from
  the previous-point anchor is at or below the distance threshold extracts no segment and
  does not move the anchor, and \<open>addPoint\<close> returns \<open>0\<close>.  In particular, when a point
  is fed a second time in a row and lies within the distance threshold of the anchor, as
  it always does when the threshold is not negative, the result of \<open>getPattern\<close> is
  unchanged.
\<close>

theorem addPoint_jitter:
  "(\<forall>px py. previousPointX this = Some px \<and> previousPointY this = Some py \<and>
      hypot (x - px) (y - py) \<le> pcDistanceThreshold this
      \<longrightarrow> fst (addPoint this x y) = 0 \<and>
          extracedVectors (snd (addPoint this x y)) = extracedVectors this \<and>
          previousPointX (snd (addPoint this x y)) = Some px \<and>
          previousPointY (snd (addPoint this x y)) = Some py) \<and>
   (hypot (x - num (previousPointX (snd (addPoint this x y))))
          (y - num (previousPointY (snd (addPoint this x y))))
      \<le> pcDistanceThreshold this
    \<longrightarrow> getPattern (snd (addPoint (snd (addPoint this x y)) x y)) =
        getPattern (snd (addPoint this x y))) \<and>
   (0 \<le> pcDistanceThreshold this
    \<longrightarrow> getPattern (snd (addPoint (snd (addPoint this x y)) x y)) =
        getPattern (snd (addPoint this x y)))"
proof (intro conjI allI impI)
  fix px py
  assume a: "previousPointX this = Some px \<and> previousPointY this = Some py \<and>
      hypot (x - px) (y - py) \<le> pcDistanceThreshold this"
  then have eq: "addPoint this x y = (0, this \<lparr> lastPointX := Some x, lastPointY := Some y \<rparr>)"
    by (simp add: addPoint_near)
  show "fst (addPoint this x y) = 0" by (simp add: eq)
  show "extracedVectors (snd (addPoint this x y)) = extracedVectors this" by (simp add: eq)
  show "previousPointX (snd (addPoint this x y)) = Some px" using a by (simp add: eq)
  show "previousPointY (snd (addPoint this x y)) = Some py" using a by (simp add: eq)
next
  assume "hypot (x - num (previousPointX (snd (addPoint this x y))))
          (y - num (previousPointY (snd (addPoint this x y))))
      \<le> pcDistanceThreshold this"
  then show "getPattern (snd (addPoint (snd (addPoint this x y)) x y)) =
        getPattern (snd (addPoint this x y))"
    by (rule addPoint_twice_near)
next
  assume "0 \<le> pcDistanceThreshold this"
  then show "getPattern (snd (addPoint (snd (addPoint this x y)) x y)) =
        getPattern (snd (addPoint this x y))"
    by (intro addPoint_twice_near addPoint_twice_dist)
qed

theorem addPoint_jitter_witness:
  "previousPointX straightStroke = Some 20 \<and> previousPointY straightStroke = Some 0 \<and>
   hypot (25 - 20) (0 - 0) \<le> pcDistanceThreshold straightStroke \<and>
   fst (addPoint straightStroke 25 0) = 0 \<and>
   extracedVectors (snd (addPoint straightStroke 25 0)) = extracedVectors straightStroke \<and>
   previousPointX (snd (addPoint straightStroke 25 0)) = Some 20 \<and>
   previousPointY (snd (addPoint straightStroke 25 0)) = Some 0 \<and>
   0 \<le> pcDistanceThreshold straightStroke \<and>
   getPattern (snd (addPoint (snd (addPoint straightStroke 25 0)) 25 0)) =
     getPattern (snd (addPoint straightStroke 25 0))"
proof -
  have h: "previousPointX straightStroke = Some 20 \<and> previousPointY straightStroke = Some 0 \<and>
           hypot (25 - 20) (0 - 0) \<le> pcDistanceThreshold straightStroke"
    by (simp add: straightStroke_eq hypot_le_iff)
  have t: "0 \<le> pcDistanceThreshold straightStroke"
    by (simp add: straightStroke_eq)
  show ?thesis
    using h t addPoint_jitter [of straightStroke 25 0] by blast
qed

section \<open>The blacklist matcher\<close>

lemma globItem_star: "globItem (CHR ''*'') = Star AnyChar"
  by (simp add: globItem_def)

lemma globItem_char: "c \<noteq> CHR ''*'' \<Longrightarrow> globItem c = One (Lit c)"
  by (simp add: globItem_def)

lemma special_not_alphanumeric: "c \<in> set specialCharacters \<Longrightarrow> \<not> alphanumeric c"
  by (auto simp add: specialCharacters_def whitespace_def backslash_def alphanumeric_def)

lemma syntax_special: "c \<in> set syntaxCharacters \<Longrightarrow> c \<in> set specialCharacters"
  by (auto simp add: specialCharacters_def syntaxCharacters_def)

lemma star_special: "CHR ''*'' \<in> set specialCharacters"
  by (simp add: specialCharacters_def)

lemma dot_special: "CHR ''.'' \<in> set specialCharacters"
  by (simp add: specialCharacters_def)

lemma backslash_special: "backslash \<in> set specialCharacters"
  by (simp add: specialCharacters_def)

lemma replaceSpecial_Nil [simp]: "replaceSpecial [] = []"
  by (simp add: replaceSpecial_def)

lemma replaceSpecial_Cons:
  "replaceSpecial (c # cs) =
     (if c \<in> set specialCharacters then replaceMatch c else [c]) @ replaceSpecial cs"
  by (simp add: replaceSpecial_def)

lemma replaceSpecial_head: "replaceSpecial cs = e # es \<Longrightarrow> e \<noteq> CHR ''*''"
proof (cases cs)
  case Nil
  assume "replaceSpecial cs = e # es"
  then show ?thesis using Nil by simp
next
  case (Cons c cs')
  assume "replaceSpecial cs = e # es"
  then show ?thesis using Cons star_special
    by (auto simp add: replaceSpecial_Cons replaceMatch_def backslash_def split: if_splits)
qed

lemma parseRx_replaceSpecial: "parseRx (replaceSpecial p) = Some (map globItem p)"
proof (induction p)
  case Nil
  show ?case by simp
next
  case (Cons c cs)
  show ?case
  proof (cases "c = CHR ''*''")
    case True
    then show ?thesis using Cons star_special
      by (simp add: replaceSpecial_Cons replaceMatch_def globItem_def backslash_def)
  next
    case nostar: False
    show ?thesis
    proof (cases "c \<in> set specialCharacters")
      case True
      then have na: "\<not> alphanumeric c" by (rule special_not_alphanumeric)
      show ?thesis
      proof (cases "replaceSpecial cs")
        case Nil
        then show ?thesis using True nostar na Cons
          by (simp add: replaceSpecial_Cons replaceMatch_def globItem_def)
      next
        case (Cons e es)
        then have "e \<noteq> CHR ''*''" by (rule replaceSpecial_head)
        then show ?thesis using True nostar na Cons.IH Cons
          by (simp add: replaceSpecial_Cons replaceMatch_def globItem_def)
      qed
    next
      case False
      then have ns: "c \<notin> set syntaxCharacters" and nd: "c \<noteq> CHR ''.''" and nb: "c \<noteq> backslash"
        using syntax_special dot_special backslash_special by auto
      show ?thesis
      proof (cases "replaceSpecial cs")
        case Nil
        then show ?thesis using False nostar ns nd nb Cons
          by (simp add: replaceSpecial_Cons globItem_def)
      next
        case (Cons e es)
        then have "e \<noteq> CHR ''*''" by (rule replaceSpecial_head)
        then show ?thesis using False nostar ns nd nb Cons.IH Cons
          by (simp add: replaceSpecial_Cons globItem_def)
      qed
    qed
  qed
qed

lemma matchesCurrentURL_items:
  "matchesCurrentURL urlPattern href = Some (matchItems (map globItem urlPattern) href)"
  by (simp add: matchesCurrentURL_def RegExp_test_def parseRx_replaceSpecial)

lemma star_split:
  "matchItems (Star a # r) s \<Longrightarrow> \<exists>w t. s = w @ t \<and> matchItems r t"
proof (induction s)
  case Nil
  then show ?case by auto
next
  case (Cons c s)
  from Cons.prems have "matchItems r (c # s) \<or> matchItems (Star a # r) s" by auto
  then show ?case
  proof
    assume "matchItems r (c # s)"
    then have "c # s = [] @ (c # s) \<and> matchItems r (c # s)" by simp
    then show ?thesis by blast
  next
    assume "matchItems (Star a # r) s"
    then obtain w t where "s = w @ t" "matchItems r t" using Cons.IH by blast
    then have "c # s = (c # w) @ t \<and> matchItems r t" by simp
    then show ?thesis by blast
  qed
qed

lemma star_skip: "matchItems r s \<Longrightarrow> matchItems (Star a # r) s"
  by (cases s) simp_all

lemma star_join:
  "matchItems r s \<Longrightarrow> \<forall>c \<in> set w. c \<notin> set lineTerminators \<Longrightarrow>
   matchItems (Star AnyChar # r) (w @ s)"
  by (induction w) (simp_all add: star_skip)

lemma items_glob: "matchItems (map globItem p) s \<Longrightarrow> glob p s"
proof (induction p arbitrary: s)
  case Nil
  then show ?case by (simp add: glob_end)
next
  case (Cons c p)
  show ?case
  proof (cases "c = CHR ''*''")
    case True
    with Cons.prems have "matchItems (Star AnyChar # map globItem p) s"
      by (simp add: globItem_star)
    then obtain w t where "s = w @ t" "matchItems (map globItem p) t"
      using star_split by blast
    then show ?thesis using True Cons.IH by (auto intro: glob_star)
  next
    case False
    with Cons.prems have m: "matchItems (One (Lit c) # map globItem p) s"
      by (simp add: globItem_char)
    then obtain t where "s = c # t" "matchItems (map globItem p) t"
      by (cases s) auto
    then show ?thesis using False Cons.IH by (auto intro: glob_char)
  qed
qed

lemma glob_items:
  "glob p s \<Longrightarrow> \<forall>c \<in> set s. c \<notin> set lineTerminators \<Longrightarrow> matchItems (map globItem p) s"
proof (induction rule: glob.induct)
  case glob_end
  show ?case by simp
next
  case (glob_star ps s w)
  then show ?case by (simp add: globItem_star star_join)
next
  case (glob_char c ps s)
  then show ?case by (simp add: globItem_char)
qed

text \<open>
  Claim C8: the blacklist matcher treats \<open>*\<close> as a wildcard for any sequence of
  characters, matches the pattern against the whole URL, and matches every other
  character of the pattern literally: on a URL, which contains no line terminator, its
  answer is that of the matching the specification describes.  The pattern
  \<open>*://*.example.com/*\<close> matches \<open>https://a.example.com/x\<close> and does not match
  \<open>https://example.org/\<close>.
\<close>

theorem matchesCurrentURL_glob:
  "((\<forall>c \<in> set href. c \<notin> set lineTerminators) \<longrightarrow>
      matchesCurrentURL urlPattern href = Some (glob urlPattern href)) \<and>
   matchesCurrentURL ''*://*.example.com/*'' ''https://a.example.com/x'' = Some True \<and>
   matchesCurrentURL ''*://*.example.com/*'' ''https://example.org/'' = Some False"
proof (intro conjI impI)
  assume "\<forall>c \<in> set href. c \<notin> set lineTerminators"
  then have "matchItems (map globItem urlPattern) href \<longleftrightarrow> glob urlPattern href"
    using items_glob glob_items by blast
  then show "matchesCurrentURL urlPattern href = Some (glob urlPattern href)"
    by (simp add: matchesCurrentURL_items)
next
  show "matchesCurrentURL ''*://*.example.com/*'' ''https://a.example.com/x'' = Some True"
    by code_simp
  show "matchesCurrentURL ''*://*.example.com/*'' ''https://example.org/'' = Some False"
    by code_simp
qed

theorem matchesCurrentURL_glob_witness:
  "set ''https://a.example.com/x'' \<inter> set lineTerminators = {} \<and>
   glob ''*://*.example.com/*'' ''https://a.example.com/x'' \<and>
   set ''https://example.org/'' \<inter> set lineTerminators = {} \<and>
   \<not> glob ''*://*.example.com/*'' ''https://example.org/''"
proof -
  have h1: "\<forall>c \<in> set ''https://a.example.com/x''. c \<notin> set lineTerminators"
    by (simp add: lineTerminators_def)
  have h2: "\<forall>c \<in> set ''https://example.org/''. c \<notin> set lineTerminators"
    by (simp add: lineTerminators_def)
  have "matchesCurrentURL ''*://*.example.com/*'' ''https://a.example.com/x'' =
          Some (glob ''*://*.example.com/*'' ''https://a.example.com/x'')"
    using matchesCurrentURL_glob [of "''https://a.example.com/x''" "''*://*.example.com/*''"] h1
    by blast
  moreover have "matchesCurrentURL ''*://*.example.com/*'' ''https://a.example.com/x'' = Some True"
    using matchesCurrentURL_glob [of "[]" "[]"] by blast
  ultimately have a: "glob ''*://*.example.com/*'' ''https://a.example.com/x''" by simp
  have "matchesCurrentURL ''*://*.example.com/*'' ''https://example.org/'' =
          Some (glob ''*://*.example.com/*'' ''https://example.org/'')"
    using matchesCurrentURL_glob [of "''https://example.org/''" "''*://*.example.com/*''"] h2
    by blast
  moreover have "matchesCurrentURL ''*://*.example.com/*'' ''https://example.org/'' = Some False"
    using matchesCurrentURL_glob [of "[]" "[]"] by blast
  ultimately have b: "\<not> glob ''*://*.example.com/*'' ''https://example.org/''" by simp
  have d1: "set ''https://a.example.com/x'' \<inter> set lineTerminators = {}"
    using h1 by blast
  have d2: "set ''https://example.org/'' \<inter> set lineTerminators = {}"
    using h2 by blast
  show ?thesis using a b d1 d2 by blast
qed

end
